theory Spec2Isabelle
  imports Main "HOL-Library.Product_Lexorder"
begin

section \<open>Python strings\<close>

text \<open>
  Text is a list of 8-bit characters, read as the code points 0 to 255. The character
  classes below are Python's \<^verbatim>\<open>str.isspace\<close>, \<^verbatim>\<open>\s\<close> and \<^verbatim>\<open>\d\<close> on that
  range; the en dash of the punctuation class in the title clean-up lies outside it.
\<close>

datatype error = ValueError | AttributeError | KeyError

definition NL :: char where
  "NL = CHR 0x0A"

definition whitespace_chars :: "char list" where
  "whitespace_chars =
     [CHR 0x09, CHR 0x0A, CHR 0x0B, CHR 0x0C, CHR 0x0D, CHR 0x1C, CHR 0x1D, CHR 0x1E,
      CHR 0x1F, CHR 0x20, CHR 0x85, CHR 0xA0]"

definition isspace :: "char \<Rightarrow> bool" where
  "isspace c = (c \<in> set whitespace_chars)"

definition isdigit :: "char \<Rightarrow> bool" where
  "isdigit c = (c \<in> set ''0123456789'')"

definition lstrip :: "string \<Rightarrow> string" where
  "lstrip s = dropWhile isspace s"

definition rstrip :: "string \<Rightarrow> string" where
  "rstrip s = rev (dropWhile isspace (rev s))"

definition strip :: "string \<Rightarrow> string" where
  "strip s = lstrip (rstrip s)"

text \<open>\<^verbatim>\<open>s.split(d)\<close> for a one-character separator: it always returns at least one piece.\<close>

fun split_on :: "char \<Rightarrow> string \<Rightarrow> string list" where
  "split_on d [] = [[]]"
| "split_on d (c # cs) =
     (if c = d then [] # split_on d cs
      else (case split_on d cs of [] \<Rightarrow> [[c]] | w # ws \<Rightarrow> (c # w) # ws))"

definition count_char :: "char \<Rightarrow> string \<Rightarrow> nat" where
  "count_char c s = length (filter (\<lambda>x. x = c) s)"

definition startswith :: "string \<Rightarrow> string \<Rightarrow> bool" where
  "startswith s p = (take (length p) s = p)"

text \<open>\<^verbatim>\<open>p in s\<close> for strings.\<close>

fun contains :: "string \<Rightarrow> string \<Rightarrow> bool" where
  "contains [] p = (p = [])"
| "contains (c # cs) p = (startswith (c # cs) p \<or> contains cs p)"

text \<open>
  \<^verbatim>\<open>int(s)\<close>: surrounding whitespace, an optional sign, then decimal digits, where single
  underscores may stand between digits. The whitespace \<^verbatim>\<open>int\<close> accepts around a number
  is narrower than \<^verbatim>\<open>str.isspace\<close>: the separators U+001C to U+001F are not part of
  it. A string of more than 4300 digits is refused (the interpreter's limit on the
  conversion of strings to integers; the sign, the underscores and the whitespace do not
  count). \<open>None\<close> is the ValueError.
\<close>

definition int_whitespace :: "char list" where
  "int_whitespace =
     [CHR 0x09, CHR 0x0A, CHR 0x0B, CHR 0x0C, CHR 0x0D, CHR 0x20, CHR 0x85, CHR 0xA0]"

definition int_space :: "char \<Rightarrow> bool" where
  "int_space c = (c \<in> set int_whitespace)"

definition max_str_digits :: nat where
  "max_str_digits = 4300"

definition digit_val :: "char \<Rightarrow> int" where
  "digit_val c = int (of_char c) - 48"

fun digits_val :: "int \<Rightarrow> string \<Rightarrow> int option" where
  "digits_val acc [] = Some acc"
| "digits_val acc (c # cs) =
     (if isdigit c then digits_val (10 * acc + digit_val c) cs
      else if c = CHR ''_'' then
        (case cs of
           [] \<Rightarrow> None
         | d # ds \<Rightarrow> if isdigit d then digits_val (10 * acc + digit_val d) ds else None)
      else None)"

definition int_digits :: "string \<Rightarrow> int option" where
  "int_digits s =
     (if max_str_digits < length (filter isdigit s) then None
      else (case s of
              [] \<Rightarrow> None
            | c # cs \<Rightarrow> if isdigit c then digits_val (digit_val c) cs else None))"

definition py_int :: "string \<Rightarrow> int option" where
  "py_int s =
     (case dropWhile int_space (rev (dropWhile int_space (rev s))) of
        [] \<Rightarrow> None
      | c # cs \<Rightarrow>
          if c = CHR ''-'' then map_option uminus (int_digits cs)
          else if c = CHR ''+'' then int_digits cs
          else int_digits (c # cs))"

text \<open>
  The longest list the interpreter can hold, \<^verbatim>\<open>sys.maxsize\<close>. The memory at hand may
  allow much less: where the size of a list matters, the number of items the interpreter
  can still store is a parameter \<open>cap\<close> of the model.
\<close>

definition PY_SSIZE_T_MAX :: nat where
  "PY_SSIZE_T_MAX = 2 ^ 63 - 1"

section \<open>Regular expressions as the re module runs them\<close>

text \<open>
  A pattern is a term of \<open>regex\<close>; \<open>Rep greedy lo hi r\<close> is a quantifier, \<open>Grp n r\<close> a
  capturing group. The matcher is the backtracking search of the \<^verbatim>\<open>re\<close> module: it tries
  the alternatives of a pattern in their priority order (a greedy quantifier takes another
  round first, a lazy one leaves first) and returns the first way to match the whole
  pattern. The continuation \<open>k\<close> is what remains to be matched. A match state is the
  position reached, the text from there on, and the groups captured so far (the newest
  first). A round of a quantifier that consumes nothing is not repeated; no quantified
  pattern of this program can match the empty string.
\<close>

datatype regex =
    Eps
  | Chr "char \<Rightarrow> bool"
  | Seq regex regex
  | Alt regex regex
  | Rep bool nat "nat option" regex
  | Grp string regex
  | Bol
  | Eol

type_synonym mstate = "nat \<times> string \<times> (string \<times> string) list"

definition pos :: "mstate \<Rightarrow> nat" where
  "pos s = fst s"

definition rest :: "mstate \<Rightarrow> string" where
  "rest s = fst (snd s)"

definition caps :: "mstate \<Rightarrow> (string \<times> string) list" where
  "caps s = snd (snd s)"

primrec rep ::
  "((mstate \<Rightarrow> mstate option) \<Rightarrow> mstate \<Rightarrow> mstate option) \<Rightarrow> bool \<Rightarrow> nat \<Rightarrow> nat option \<Rightarrow>
     nat \<Rightarrow> (mstate \<Rightarrow> mstate option) \<Rightarrow> mstate \<Rightarrow> mstate option" where
  "rep m g lo hi 0 k s = (if lo = 0 then k s else None)"
| "rep m g lo hi (Suc fuel) k s =
     (if hi = Some 0 then (if lo = 0 then k s else None)
      else if 0 < lo then
        m (\<lambda>s'. if length (rest s') < length (rest s)
                 then rep m g (lo - 1) (map_option (\<lambda>h. h - 1) hi) fuel k s' else None) s
      else if g then
        (case m (\<lambda>s'. if length (rest s') < length (rest s)
                       then rep m g (lo - 1) (map_option (\<lambda>h. h - 1) hi) fuel k s' else None) s of
           Some r \<Rightarrow> Some r
         | None \<Rightarrow> k s)
      else
        (case k s of
           Some r \<Rightarrow> Some r
         | None \<Rightarrow>
             m (\<lambda>s'. if length (rest s') < length (rest s)
                      then rep m g (lo - 1) (map_option (\<lambda>h. h - 1) hi) fuel k s' else None) s))"

primrec matchk :: "regex \<Rightarrow> (mstate \<Rightarrow> mstate option) \<Rightarrow> mstate \<Rightarrow> mstate option" where
  "matchk Eps k s = k s"
| "matchk (Chr p) k s =
     (case rest s of
        [] \<Rightarrow> None
      | c # cs \<Rightarrow> if p c then k (pos s + 1, cs, caps s) else None)"
| "matchk (Seq a b) k s = matchk a (matchk b k) s"
| "matchk (Alt a b) k s = (case matchk a k s of Some r \<Rightarrow> Some r | None \<Rightarrow> matchk b k s)"
| "matchk (Rep g lo hi r) k s = rep (matchk r) g lo hi (length (rest s)) k s"
| "matchk (Grp n r) k s =
     matchk r (\<lambda>s'. k (pos s', rest s', (n, take (pos s' - pos s) (rest s)) # caps s')) s"
| "matchk Bol k s = (if pos s = 0 then k s else None)"
| "matchk Eol k s = (if rest s = [] \<or> rest s = [NL] then k s else None)"

text \<open>\<^verbatim>\<open>pattern.match(s)\<close> starts at position 0; \<^verbatim>\<open>re.search\<close> tries every start in turn.\<close>

definition re_match :: "regex \<Rightarrow> string \<Rightarrow> mstate option" where
  "re_match r s = matchk r Some (0, s, [])"

fun search_at :: "regex \<Rightarrow> nat \<Rightarrow> string \<Rightarrow> (nat \<times> mstate) option" where
  "search_at r i [] = map_option (Pair i) (matchk r Some (i, [], []))"
| "search_at r i (c # cs) =
     (case matchk r Some (i, c # cs, []) of
        Some m \<Rightarrow> Some (i, m)
      | None \<Rightarrow> search_at r (Suc i) cs)"

definition re_search :: "regex \<Rightarrow> string \<Rightarrow> (nat \<times> mstate) option" where
  "re_search r s = search_at r 0 s"

text \<open>
  What a pattern allows, apart from the order in which the matcher tries it: \<open>sem r s s'\<close>
  says that \<open>r\<close> can lead from the match state \<open>s\<close> to \<open>s'\<close>. A quantifier repeats its
  body, each round consuming at least one character.
\<close>

primrec sem :: "regex \<Rightarrow> mstate \<Rightarrow> mstate \<Rightarrow> bool" where
  "sem Eps s s' = (s' = s)"
| "sem (Chr p) s s' =
     (case rest s of [] \<Rightarrow> False | c # cs \<Rightarrow> p c \<and> s' = (pos s + 1, cs, caps s))"
| "sem (Seq a b) s s' = (\<exists>t. sem a s t \<and> sem b t s')"
| "sem (Alt a b) s s' = (sem a s s' \<or> sem b s s')"
| "sem (Rep g lo hi r) s s' =
     (\<exists>n. lo \<le> n \<and> (case hi of None \<Rightarrow> True | Some h \<Rightarrow> n \<le> h)
          \<and> ((\<lambda>a b. sem r a b \<and> length (rest b) < length (rest a)) ^^ n) s s')"
| "sem (Grp n r) s s' =
     (\<exists>t. sem r s t \<and> s' = (pos t, rest t, (n, take (pos t - pos s) (rest s)) # caps t))"
| "sem Bol s s' = (pos s = 0 \<and> s' = s)"
| "sem Eol s s' = ((rest s = [] \<or> rest s = [NL]) \<and> s' = s)"

primrec group_names :: "regex \<Rightarrow> string list" where
  "group_names Eps = []"
| "group_names (Chr p) = []"
| "group_names (Seq a b) = group_names a @ group_names b"
| "group_names (Alt a b) = group_names a @ group_names b"
| "group_names (Rep g lo hi r) = group_names r"
| "group_names (Grp n r) = n # group_names r"
| "group_names Bol = []"
| "group_names Eol = []"

text \<open>
  \<^verbatim>\<open>match.groupdict()\<close>: every named group of the pattern is a key; a group that took no
  part in the match has the value \<open>None\<close>.
\<close>

definition groupdict :: "regex \<Rightarrow> mstate \<Rightarrow> (string \<times> string option) list" where
  "groupdict r m = map (\<lambda>n. (n, map_of (caps m) n)) (group_names r)"

text \<open>\<^verbatim>\<open>k in groups and groups[k]\<close>: the key is there and its value is a non-empty string.\<close>

definition group_truthy :: "(string \<times> string option) list \<Rightarrow> string \<Rightarrow> bool" where
  "group_truthy groups k = (case map_of groups k of Some (Some v) \<Rightarrow> v \<noteq> [] | _ \<Rightarrow> False)"

definition group_val :: "(string \<times> string option) list \<Rightarrow> string \<Rightarrow> string" where
  "group_val groups k = (case map_of groups k of Some (Some v) \<Rightarrow> v | _ \<Rightarrow> [])"

text \<open>
  \<^verbatim>\<open>groups.get(k, '').strip()\<close>: an absent key gives the default, a group that took no part
  gives \<^verbatim>\<open>None\<close>, and \<^verbatim>\<open>None.strip()\<close> raises AttributeError.
\<close>

definition get_stripped :: "(string \<times> string option) list \<Rightarrow> string \<Rightarrow> error + string" where
  "get_stripped groups k =
     (case map_of groups k of
        None \<Rightarrow> Inr (strip [])
      | Some None \<Rightarrow> Inl AttributeError
      | Some (Some v) \<Rightarrow> Inr (strip v))"

definition Cat :: "regex list \<Rightarrow> regex" where
  "Cat rs = foldr Seq rs Eps"

definition Lit :: "string \<Rightarrow> regex" where
  "Lit w = Cat (map (\<lambda>c. Chr (\<lambda>x. x = c)) w)"

definition Alts :: "regex list \<Rightarrow> regex" where
  "Alts rs = (case rs of [] \<Rightarrow> Eps | r # rs' \<Rightarrow> foldl Alt r rs')"

definition Opt :: "regex \<Rightarrow> regex" where
  "Opt r = Rep True 0 (Some 1) r"

definition Star :: "regex \<Rightarrow> regex" where
  "Star r = Rep True 0 None r"

definition Plus :: "regex \<Rightarrow> regex" where
  "Plus r = Rep True 1 None r"

definition LazyStar :: "regex \<Rightarrow> regex" where
  "LazyStar r = Rep False 0 None r"

definition AtLeast :: "nat \<Rightarrow> regex \<Rightarrow> regex" where
  "AtLeast n r = Rep True n None r"

definition anychar :: "char \<Rightarrow> bool" where
  "anychar c = (c \<noteq> NL)"

definition one_of :: "string \<Rightarrow> char \<Rightarrow> bool" where
  "one_of cs c = (c \<in> set cs)"

definition none_of :: "string \<Rightarrow> char \<Rightarrow> bool" where
  "none_of cs c = (c \<notin> set cs)"

definition upper_AZ :: string where
  "upper_AZ = ''ABCDEFGHIJKLMNOPQRSTUVWXYZ''"

definition lower_az :: string where
  "lower_az = ''abcdefghijklmnopqrstuvwxyz''"

definition Digit :: regex where
  "Digit = Chr isdigit"

definition Space :: regex where
  "Space = Chr isspace"

definition Any :: regex where
  "Any = Chr anychar"


section \<open>The table-of-contents extractor\<close>

text \<open>
  A TOCEntry object. Objects live in the extractor's object table and are named by their
  index there: \<open>children\<close> holds references, so that an entry that gains a child after it
  was itself attached shows the child wherever it is reached from.
\<close>

record toc_obj =
  level :: nat
  title :: string
  page_num :: "int option"
  raw_text :: string
  children :: "nat list"

definition TOCEntry :: "nat \<Rightarrow> string \<Rightarrow> int option \<Rightarrow> string \<Rightarrow> toc_obj" where
  "TOCEntry lv t pg raw =
     \<lparr>level = lv, title = strip t, page_num = pg, raw_text = raw, children = []\<rparr>"

subsection \<open>The six line patterns\<close>

definition toc_pattern1 :: regex where
  "toc_pattern1 = Cat
     [Opt (Grp ''prefix'' (Cat [Plus (Cat [Plus Digit, Lit ''.'']), Star Space])),
      Grp ''title'' (LazyStar Any),
      AtLeast 2 (Lit ''.''),
      Grp ''page'' (Plus Digit),
      Eol]"

definition toc_pattern2 :: regex where
  "toc_pattern2 = Cat
     [Opt (Grp ''prefix'' (Cat
        [Opt (Cat [Alts [Lit ''Chapter'', Lit ''Section'', Lit ''Part''], Plus Space]),
         Plus Digit, Opt (Lit ''.''), Plus Space])),
      Grp ''title'' (LazyStar Any),
      Plus Space,
      Grp ''page'' (Plus Digit),
      Eol]"

definition toc_pattern3 :: regex where
  "toc_pattern3 = Cat
     [Opt (Grp ''prefix'' (Cat [Plus (Chr (one_of ''IVXivx'')), Opt (Lit ''.''), Plus Space])),
      Grp ''title'' (LazyStar Any),
      Plus Space,
      Grp ''page'' (Plus Digit),
      Eol]"

definition toc_pattern4 :: regex where
  "toc_pattern4 = Cat
     [Opt (Grp ''prefix'' (Cat
        [Chr (one_of upper_AZ), Plus (Cat [Lit ''.'', Plus Digit]), Plus Space])),
      Grp ''title'' (LazyStar Any),
      Plus Space,
      Grp ''page'' (Plus Digit),
      Eol]"

definition toc_pattern5 :: regex where
  "toc_pattern5 = Cat
     [Bol,
      Grp ''indent'' (AtLeast 2 Space),
      Grp ''title'' (LazyStar Any),
      AtLeast 2 (Lit ''.''),
      Grp ''page'' (Plus Digit),
      Eol]"

definition toc_pattern6 :: regex where
  "toc_pattern6 = Cat
     [Bol,
      Grp ''indent'' (AtLeast 2 Space),
      Grp ''title'' (LazyStar Any),
      Plus Space,
      Grp ''page'' (Plus Digit),
      Eol]"

definition toc_patterns :: "regex list" where
  "toc_patterns =
     [toc_pattern1, toc_pattern2, toc_pattern3, toc_pattern4, toc_pattern5, toc_pattern6]"

text \<open>The pattern of the last resort, \<^verbatim>\<open>(\S+)\s+(\d+)$\<close>, is searched for, not matched.\<close>

definition page_pattern :: regex where
  "page_pattern = Cat
     [Grp ''1'' (Plus (Chr (\<lambda>c. \<not> isspace c))), Plus Space, Grp ''2'' (Plus Digit), Eol]"

subsection \<open>Classifying one line\<close>

text \<open>
  The level of a matched line: the dots of a non-empty prefix (1 when it has none), else
  half the length of a non-empty indent, else 0.
\<close>

definition match_level :: "(string \<times> string option) list \<Rightarrow> nat" where
  "match_level groups =
     (if group_truthy groups ''prefix'' then
        (let prefix = strip (group_val groups ''prefix'');
             lv = count_char CHR ''.'' prefix
         in if lv = 0 \<and> prefix \<noteq> [] then 1 else lv)
      else if group_truthy groups ''indent'' then length (group_val groups ''indent'') div 2
      else 0)"

definition match_page :: "(string \<times> string option) list \<Rightarrow> int option" where
  "match_page groups =
     (if group_truthy groups ''page'' then py_int (group_val groups ''page'') else None)"

text \<open>
  The loop over the patterns. A pattern that matches with an empty title is passed over
  and the next pattern is tried; \<open>Inr None\<close> says that no pattern gave an entry.
\<close>

fun try_toc_patterns :: "regex list \<Rightarrow> string \<Rightarrow> error + toc_obj option" where
  "try_toc_patterns [] line = Inr None"
| "try_toc_patterns (p # ps) line =
     (case re_match p line of
        None \<Rightarrow> try_toc_patterns ps line
      | Some m \<Rightarrow>
          (case get_stripped (groupdict p m) ''title'' of
             Inl e \<Rightarrow> Inl e
           | Inr t \<Rightarrow>
               if t \<noteq> []
               then Inr (Some (TOCEntry (match_level (groupdict p m)) t
                                 (match_page (groupdict p m)) line))
               else try_toc_patterns ps line))"

definition last_resort :: "string \<Rightarrow> toc_obj option" where
  "last_resort line =
     (case re_search page_pattern line of
        None \<Rightarrow> None
      | Some (start, m) \<Rightarrow>
          (case py_int (case map_of (caps m) ''2'' of None \<Rightarrow> [] | Some v \<Rightarrow> v) of
             None \<Rightarrow> None
           | Some pg \<Rightarrow>
               Some (TOCEntry ((length line - length (lstrip line)) div 2)
                       (strip (take start line)) (Some pg) line)))"

definition parse_toc_line :: "string \<Rightarrow> error + toc_obj option" where
  "parse_toc_line line =
     (case try_toc_patterns toc_patterns line of
        Inl e \<Rightarrow> Inl e
      | Inr (Some entry) \<Rightarrow> Inr (Some entry)
      | Inr None \<Rightarrow> Inr (last_resort line))"

subsection \<open>The extractor and its first pass\<close>

record index_entry =
  entry_term :: string
  page_refs :: "(int + string) list"
  subentries :: "(string \<times> (int + string) list) list"

record toc_extractor =
  objects :: "toc_obj list"
  toc_entries :: "nat list"
  index_entries :: "(string \<times> index_entry) list"

text \<open>
  The loop over the lines of \<^verbatim>\<open>_extract_toc\<close>. A blank line and a line of fewer than five
  characters (both after trimming) are skipped before any pattern is tried. The result
  pairs the exception that left the loop, if any, with the extractor as it then is.
\<close>

fun toc_first_pass :: "string list \<Rightarrow> toc_extractor \<Rightarrow> error option \<times> toc_extractor" where
  "toc_first_pass [] st = (None, st)"
| "toc_first_pass (l # ls) st =
     (if strip (rstrip l) = [] then toc_first_pass ls st
      else if length (strip (rstrip l)) < 5 then toc_first_pass ls st
      else
        (case parse_toc_line (rstrip l) of
           Inl e \<Rightarrow> (Some e, st)
         | Inr None \<Rightarrow> toc_first_pass ls st
         | Inr (Some entry) \<Rightarrow>
             toc_first_pass ls
               (st\<lparr>objects := objects st @ [entry],
                   toc_entries := toc_entries st @ [length (objects st)]\<rparr>)))"

subsection \<open>The hierarchy pass\<close>

text \<open>\<^verbatim>\<open>xs.index(x)\<close> raises ValueError when \<open>x\<close> is not in \<open>xs\<close>.\<close>

fun list_index :: "'a list \<Rightarrow> 'a \<Rightarrow> error + nat" where
  "list_index [] x = Inl ValueError"
| "list_index (y # ys) x =
     (if y = x then Inr 0
      else (case list_index ys x of Inl e \<Rightarrow> Inl e | Inr i \<Rightarrow> Inr (Suc i)))"

fun eval_keys :: "('a \<Rightarrow> error + 'k) \<Rightarrow> 'a list \<Rightarrow> error + 'k list" where
  "eval_keys key [] = Inr []"
| "eval_keys key (x # xs) =
     (case key x of
        Inl e \<Rightarrow> Inl e
      | Inr k \<Rightarrow> (case eval_keys key xs of Inl e \<Rightarrow> Inl e | Inr ks \<Rightarrow> Inr (k # ks)))"

text \<open>
  \<^verbatim>\<open>xs.sort(key=f)\<close> as CPython runs it: the items are taken out of the list, which is
  empty for as long as the sort lasts, the key of every item is computed, and the items
  are put back in the stable order of their keys. The key function here reads the list
  being sorted, so it is given the list as it then finds it, which is \<open>[]\<close>; when a key
  raises, the list gets its items back unchanged and the exception leaves the sort.
\<close>

definition py_sort_by_key ::
  "('a list \<Rightarrow> 'a \<Rightarrow> error + 'k::linorder) \<Rightarrow> 'a list \<Rightarrow> error + 'a list" where
  "py_sort_by_key key xs =
     (case eval_keys (key []) xs of
        Inl e \<Rightarrow> Inl e
      | Inr ks \<Rightarrow> Inr (map snd (sort_key fst (zip ks xs))))"

text \<open>The key \<^verbatim>\<open>lambda x: (x.level, self.toc_entries.index(x))\<close>.\<close>

definition entry_key :: "toc_obj list \<Rightarrow> nat list \<Rightarrow> nat \<Rightarrow> error + (nat \<times> nat)" where
  "entry_key objs entries x =
     (case list_index entries x of
        Inl e \<Rightarrow> Inl e
      | Inr i \<Rightarrow> Inr (level (objs ! x), i))"

record hier_state =
  hierarchy :: "nat list"
  last_by_level :: "nat \<rightharpoonup> nat option"
  hobjects :: "toc_obj list"

text \<open>
  The search for a parent: \<open>find_parent lbl n\<close> looks at the levels \<open>n - 1\<close> down to 0 and
  returns the entry recorded at the first level that has one.
\<close>

fun find_parent :: "(nat \<rightharpoonup> nat option) \<Rightarrow> nat \<Rightarrow> nat option" where
  "find_parent lbl 0 = None"
| "find_parent lbl (Suc parent_level) =
     (case lbl parent_level of
        Some (Some p) \<Rightarrow> Some p
      | _ \<Rightarrow> find_parent lbl parent_level)"

definition append_child :: "toc_obj list \<Rightarrow> nat \<Rightarrow> nat \<Rightarrow> toc_obj list" where
  "append_child objs p e = objs[p := (objs ! p)\<lparr>children := children (objs ! p) @ [e]\<rparr>]"

definition hier_step :: "hier_state \<Rightarrow> nat \<Rightarrow> hier_state" where
  "hier_step h e =
     (if level (hobjects h ! e) = 0 then
        h\<lparr>hierarchy := hierarchy h @ [e], last_by_level := (last_by_level h)(0 \<mapsto> Some e)\<rparr>
      else
        (case find_parent (last_by_level h) (level (hobjects h ! e)) of
           Some p \<Rightarrow>
             h\<lparr>last_by_level := (last_by_level h)(level (hobjects h ! e) \<mapsto> Some e),
               hobjects := append_child (hobjects h) p e\<rparr>
         | None \<Rightarrow>
             h\<lparr>hierarchy := hierarchy h @ [e],
               last_by_level := (last_by_level h)(level (hobjects h ! e) \<mapsto> Some e)\<rparr>))"

fun build_hierarchy :: "nat list \<Rightarrow> hier_state \<Rightarrow> hier_state" where
  "build_hierarchy [] h = h"
| "build_hierarchy (e # es) h = build_hierarchy es (hier_step h e)"

definition determine_hierarchy :: "toc_extractor \<Rightarrow> (error + nat list) \<times> toc_extractor" where
  "determine_hierarchy st =
     (case py_sort_by_key (entry_key (objects st)) (toc_entries st) of
        Inl e \<Rightarrow> (Inl e, st)
      | Inr ordered \<Rightarrow>
          (let h = build_hierarchy ordered
                     \<lparr>hierarchy = [], last_by_level = [0 \<mapsto> None], hobjects = objects st\<rparr>
           in (Inr (hierarchy h), st\<lparr>objects := hobjects h, toc_entries := hierarchy h\<rparr>)))"

text \<open>
  \<^verbatim>\<open>_extract_toc\<close>: the entry list is reset (the objects of an earlier call can no longer
  be reached from the extractor, so the table starts empty as well), the lines are
  classified, and the hierarchy pass runs when there is at least one entry.
\<close>

definition extract_toc :: "toc_extractor \<Rightarrow> string \<Rightarrow> (error + nat list) \<times> toc_extractor" where
  "extract_toc st text =
     (case toc_first_pass (split_on NL text) (st\<lparr>objects := [], toc_entries := []\<rparr>) of
        (Some e, st1) \<Rightarrow> (Inl e, st1)
      | (None, st1) \<Rightarrow>
          if toc_entries st1 \<noteq> [] then
            (case determine_hierarchy st1 of
               (Inl e, st2) \<Rightarrow> (Inl e, st2)
             | (Inr h, st2) \<Rightarrow> (Inr (toc_entries st2), st2))
          else (Inr (toc_entries st1), st1))"


subsection \<open>The index extractor\<close>

text \<open>\<^verbatim>\<open>str.lower\<close> on the 8-bit range: the letters A to Z and the accented capitals.\<close>

definition to_lower :: "char \<Rightarrow> char" where
  "to_lower c =
     (let n = (of_char c :: nat)
      in if (65 \<le> n \<and> n \<le> 90) \<or> (192 \<le> n \<and> n \<le> 222 \<and> n \<noteq> 215)
         then char_of (n + 32) else c)"

definition lower :: "string \<Rightarrow> string" where
  "lower s = map to_lower s"

text \<open>A literal under \<^verbatim>\<open>re.IGNORECASE\<close>.\<close>

definition LitI :: "string \<Rightarrow> regex" where
  "LitI w = Cat (map (\<lambda>c. Chr (\<lambda>x. to_lower x = to_lower c)) w)"

definition page_item :: regex where
  "page_item = Cat [Plus Digit, Opt (Cat [Lit ''-'', Plus Digit])]"

definition page_list :: regex where
  "page_list = Cat [page_item, Star (Cat [Lit '','', Star Space, page_item])]"

definition index_pattern1 :: regex where
  "index_pattern1 = Cat
     [Grp ''term'' (LazyStar Any), Lit '','', Star Space, Grp ''pages'' page_list, Eol]"

definition index_pattern2 :: regex where
  "index_pattern2 = Cat
     [Bol, AtLeast 2 Space, Grp ''subterm'' (LazyStar Any), Lit '','', Star Space,
      Grp ''pages'' page_list, Eol]"

definition index_pattern3 :: regex where
  "index_pattern3 = Cat
     [Grp ''term'' (LazyStar Any), Lit '','', Star Space, LitI ''see'', Plus Space,
      Grp ''reference'' (LazyStar Any), Eol]"

definition index_pattern4 :: regex where
  "index_pattern4 = Cat
     [Grp ''term'' (LazyStar Any), Lit ''.'', Star Space, LitI ''See'', Plus Space,
      LitI ''also'', Plus Space, Grp ''reference'' (LazyStar Any), Eol]"

definition index_patterns :: "regex list" where
  "index_patterns = [index_pattern1, index_pattern2, index_pattern3, index_pattern4]"

text \<open>
  One piece of a page list: a range \<^verbatim>\<open>a-b\<close> gives the pages \<open>a\<close> to \<open>b\<close>, a number
  gives itself, and a piece that does not parse is kept as text (an empty one is dropped).
  \<^verbatim>\<open>page_refs.extend(range(start, end + 1))\<close> raises when the range has more items than
  a list can take, OverflowError beyond \<^verbatim>\<open>sys.maxsize\<close> and MemoryError beyond the \<open>cap\<close>
  items the memory allows, before any item is stored; the bare \<^verbatim>\<open>except\<close> then keeps the
  piece as text, as it does when a bound is no integer.
\<close>

definition chunk_refs :: "nat \<Rightarrow> string \<Rightarrow> (int + string) list" where
  "chunk_refs cap chunk =
     (if CHR ''-'' \<in> set chunk then
        (case split_on CHR ''-'' chunk of
           [a, b] \<Rightarrow>
             (case py_int a of
                None \<Rightarrow> [Inr chunk]
              | Some start \<Rightarrow>
                  (case py_int b of
                     None \<Rightarrow> [Inr chunk]
                   | Some end \<Rightarrow>
                       if int (min cap PY_SSIZE_T_MAX) < end + 1 - start then [Inr chunk]
                       else map Inl [start..end]))
         | _ \<Rightarrow> [Inr chunk])
      else
        (case py_int chunk of
           Some n \<Rightarrow> [Inl n]
         | None \<Rightarrow> if chunk \<noteq> [] then [Inr chunk] else []))"

fun page_refs_loop ::
  "nat \<Rightarrow> string list \<Rightarrow> (int + string) list \<Rightarrow> (int + string) list" where
  "page_refs_loop cap [] refs = refs"
| "page_refs_loop cap (chunk # chunks) refs =
     page_refs_loop cap chunks (refs @ chunk_refs cap chunk)"

definition parse_page_refs :: "nat \<Rightarrow> string \<Rightarrow> (int + string) list" where
  "parse_page_refs cap pages_str =
     (if pages_str = [] then []
      else page_refs_loop cap (map strip (split_on CHR '','' pages_str)) [])"

definition IndexEntry :: "string \<Rightarrow> (int + string) list \<Rightarrow> index_entry" where
  "IndexEntry t refs = \<lparr>entry_term = strip t, page_refs = refs, subentries = []\<rparr>"

text \<open>\<^verbatim>\<open>d[k] = v\<close> on an ordered dictionary: a key already there keeps its place.\<close>

fun dict_set :: "('k \<times> 'v) list \<Rightarrow> 'k \<Rightarrow> 'v \<Rightarrow> ('k \<times> 'v) list" where
  "dict_set [] k v = [(k, v)]"
| "dict_set ((k', v') # kvs) k v =
     (if k' = k then (k, v) # kvs else (k', v') # dict_set kvs k v)"

text \<open>The first pattern of a list that matches the line, with its match.\<close>

fun first_match :: "regex list \<Rightarrow> string \<Rightarrow> (regex \<times> mstate) option" where
  "first_match [] line = None"
| "first_match (p # ps) line =
     (case re_match p line of Some m \<Rightarrow> Some (p, m) | None \<Rightarrow> first_match ps line)"

text \<open>
  The body of the loop of \<^verbatim>\<open>_extract_index\<close> for one line that is not blank, on the
  dictionary and the current main term.
\<close>

definition index_line ::
  "nat \<Rightarrow> string \<Rightarrow> (string \<times> index_entry) list \<times> string option \<Rightarrow>
     error + (string \<times> index_entry) list \<times> string option" where
  "index_line cap line st =
     (case first_match (take 1 index_patterns) line of
        Some (p, m) \<Rightarrow>
          (case get_stripped (groupdict p m) ''term'' of
             Inl e \<Rightarrow> Inl e
           | Inr t \<Rightarrow>
               if t \<noteq> []
               then Inr (dict_set (fst st) t
                           (IndexEntry t (parse_page_refs cap (group_val (groupdict p m) ''pages''))),
                         Some t)
               else Inr st)
      | None \<Rightarrow>
          if (case snd st of None \<Rightarrow> False | Some cur \<Rightarrow> cur \<noteq> []) \<and> startswith line '' '' then
            (case first_match (take 1 (drop 1 index_patterns)) line of
               None \<Rightarrow> Inr st
             | Some (p, m) \<Rightarrow>
                 (case get_stripped (groupdict p m) ''subterm'' of
                    Inl e \<Rightarrow> Inl e
                  | Inr sub \<Rightarrow>
                      if sub \<noteq> [] then
                        (case map_of (fst st) (the (snd st)) of
                           None \<Rightarrow> Inl KeyError
                         | Some main_entry \<Rightarrow>
                             Inr (dict_set (fst st) (the (snd st))
                                    (main_entry\<lparr>subentries :=
                                       dict_set (subentries main_entry) sub
                                         (parse_page_refs cap (group_val (groupdict p m) ''pages''))\<rparr>),
                                  snd st))
                      else Inr st))
          else Inr st)"

fun index_pass ::
  "nat \<Rightarrow> string list \<Rightarrow> toc_extractor \<Rightarrow> string option \<Rightarrow>
     error option \<times> toc_extractor" where
  "index_pass cap [] st cur = (None, st)"
| "index_pass cap (l # ls) st cur =
     (if strip (rstrip l) = [] then index_pass cap ls st cur
      else
        (case index_line cap (rstrip l) (index_entries st, cur) of
           Inl e \<Rightarrow> (Some e, st)
         | Inr (d, cur') \<Rightarrow> index_pass cap ls (st\<lparr>index_entries := d\<rparr>) cur'))"

definition extract_index ::
  "nat \<Rightarrow> toc_extractor \<Rightarrow> string \<Rightarrow> (error + index_entry list) \<times> toc_extractor" where
  "extract_index cap st text =
     (case index_pass cap (split_on NL text) (st\<lparr>index_entries := []\<rparr>) None of
        (Some e, st1) \<Rightarrow> (Inl e, st1)
      | (None, st1) \<Rightarrow> (Inr (map snd (index_entries st1)), st1))"

text \<open>
  What \<^verbatim>\<open>extract_toc_from_text\<close> returns: the root entries, or the index entries.
  The first argument is the number of items the memory allows a list to be extended by;
  only the expansion of page ranges in the index depends on it.
\<close>

datatype extraction = Toc "nat list" | Index "index_entry list"

definition extract_toc_from_text ::
  "nat \<Rightarrow> toc_extractor \<Rightarrow> string \<Rightarrow> bool \<Rightarrow> (error + extraction) \<times> toc_extractor" where
  "extract_toc_from_text cap st text is_index =
     (if is_index then
        (case extract_index cap st text of
           (Inl e, st') \<Rightarrow> (Inl e, st')
         | (Inr es, st') \<Rightarrow> (Inr (Index es), st'))
      else
        (case extract_toc st text of
           (Inl e, st') \<Rightarrow> (Inl e, st')
         | (Inr rs, st') \<Rightarrow> (Inr (Toc rs), st')))"

text \<open>The extractor as its constructor leaves it.\<close>

definition TOCExtractor :: toc_extractor where
  "TOCExtractor = \<lparr>objects = [], toc_entries = [], index_entries = []\<rparr>"

section \<open>The component extractor\<close>

text \<open>
  A Component object. The flat list \<^verbatim>\<open>self.components\<close> holds every component in the
  order of its creation; a category refers to its members by their index in that list,
  so that a title repaired later is the title the category shows as well.
\<close>

record component =
  number :: string
  comp_title :: string
  description :: "string option"
  category :: "string option"
  comp_raw_text :: string
  comp_children :: "nat list"

definition Component :: "string \<Rightarrow> string \<Rightarrow> string option \<Rightarrow> string \<Rightarrow> component" where
  "Component n t d raw =
     \<lparr>number = n, comp_title = strip t,
      description = (case d of None \<Rightarrow> None | Some x \<Rightarrow> if x \<noteq> [] then Some (strip x) else None),
      category = None, comp_raw_text = raw, comp_children = []\<rparr>"

record component_category =
  cat_name :: string
  cat_components :: "nat list"

definition ComponentCategory :: "string \<Rightarrow> nat list \<Rightarrow> component_category" where
  "ComponentCategory n cs = \<lparr>cat_name = strip n, cat_components = cs\<rparr>"

record component_extractor =
  components :: "component list"
  categories :: "component_category list"

definition ComponentExtractor :: component_extractor where
  "ComponentExtractor = \<lparr>components = [], categories = []\<rparr>"

subsection \<open>The patterns\<close>

definition Delim :: regex where
  "Delim = Chr (one_of ''.)'')"

definition component_pattern1 :: regex where
  "component_pattern1 = Cat
     [Bol, Grp ''number'' (Plus Digit), Delim, Plus Space, Grp ''title'' (Plus Any), Eol]"

definition component_pattern2 :: regex where
  "component_pattern2 = Cat
     [Bol, Grp ''letter'' (Chr (one_of (lower_az @ upper_AZ))), Delim, Plus Space,
      Grp ''title'' (Plus Any), Eol]"

definition component_pattern3 :: regex where
  "component_pattern3 = Cat
     [Bol, Grp ''roman'' (Plus (Chr (one_of ''ivxIVX''))), Delim, Plus Space,
      Grp ''title'' (Plus Any), Eol]"

definition component_pattern4 :: regex where
  "component_pattern4 = Cat
     [Bol, Plus Space, Grp ''number'' (Plus Digit), Delim, Plus Space,
      Grp ''title'' (Plus Any), Eol]"

definition component_pattern5 :: regex where
  "component_pattern5 = Cat
     [Bol, Grp ''number'' (Plus Digit), Delim, Plus Space,
      Grp ''title'' (Plus (Chr (none_of ''(''))),
      Opt (Cat [Lit ''('', Grp ''description'' (Plus (Chr (none_of '')''))), Lit '')''])]"

definition component_pattern6 :: regex where
  "component_pattern6 = Cat
     [Bol, Grp ''number'' (Plus Digit), Lit '':'', Plus Space, Grp ''title'' (Plus Any), Eol]"

definition component_pattern7 :: regex where
  "component_pattern7 = Cat
     [Bol, Grp ''number'' (Plus Digit), Star Space, Lit ''-'', Plus Space,
      Grp ''title'' (Plus Any), Eol]"

definition component_pattern8 :: regex where
  "component_pattern8 = Cat
     [Bol, Grp ''number'' (Plus Digit), Chr (one_of ''.):''), Grp ''title'' (Plus Any), Eol]"

definition component_patterns :: "regex list" where
  "component_patterns =
     [component_pattern1, component_pattern2, component_pattern3, component_pattern4,
      component_pattern5, component_pattern6, component_pattern7, component_pattern8]"

definition upper_or_space :: "char \<Rightarrow> bool" where
  "upper_or_space c = (c \<in> set upper_AZ \<or> isspace c)"

definition category_pattern1 :: regex where
  "category_pattern1 = Cat
     [Bol, Grp ''category'' (Cat [Chr (one_of upper_AZ), Plus (Chr upper_or_space)]), Lit '':'']"

definition category_pattern2 :: regex where
  "category_pattern2 = Cat
     [Bol, Grp ''category'' (Cat [Chr (one_of upper_AZ), Plus (Chr upper_or_space)]), Eol]"

definition category_pattern3 :: regex where
  "category_pattern3 = Cat
     [Bol, Grp ''prefix'' (Cat [Plus (Chr (one_of ''IVX'')), Lit ''.'']), Star Space,
      Grp ''category'' (Cat [Chr (one_of upper_AZ), Plus (Chr upper_or_space)])]"

definition category_patterns :: "regex list" where
  "category_patterns = [category_pattern1, category_pattern2, category_pattern3]"

text \<open>The patterns written where they are used: a number alone on its line, the start
  of a numbered component, the two fallbacks of the line classifier.\<close>

definition standalone_pattern :: regex where
  "standalone_pattern = Cat [Bol, Grp ''1'' (Plus Digit), Delim, Star Space, Eol]"

definition numbered_start_pattern :: regex where
  "numbered_start_pattern = Cat [Bol, Plus Digit, Delim, Plus Space]"

definition delimiter_or_space :: "char \<Rightarrow> bool" where
  "delimiter_or_space c = (c \<in> set ''.):-'' \<or> isspace c)"

definition flexible_pattern :: regex where
  "flexible_pattern = Cat
     [Bol, Grp ''1'' (Plus Digit), Plus (Chr delimiter_or_space), Star Space,
      Grp ''2'' (Plus Any), Eol]"

definition numbered_pattern :: regex where
  "numbered_pattern = Cat
     [Bol, Grp ''1'' (Plus Digit), Star (Chr delimiter_or_space), Star Space,
      Grp ''2'' (Star Any), Eol]"

text \<open>\<^verbatim>\<open>match.group(n)\<close> of a group that took part in the match.\<close>

definition group :: "mstate \<Rightarrow> string \<Rightarrow> string" where
  "group m n = (case map_of (caps m) n of None \<Rightarrow> [] | Some v \<Rightarrow> v)"

subsection \<open>Classifying one line\<close>

text \<open>
  \<^verbatim>\<open>_match_category\<close>: the name a category pattern captures, trimmed. The callers test the
  result for truth, so \<open>is_category\<close> asks for a name that is not empty.
\<close>

fun match_category_in :: "regex list \<Rightarrow> string \<Rightarrow> error + string option" where
  "match_category_in [] line = Inr None"
| "match_category_in (p # ps) line =
     (case re_match p line of
        None \<Rightarrow> match_category_in ps line
      | Some m \<Rightarrow>
          if ''category'' \<in> set (map fst (groupdict p m))
          then (case get_stripped (groupdict p m) ''category'' of
                  Inl e \<Rightarrow> Inl e
                | Inr name \<Rightarrow> Inr (Some name))
          else match_category_in ps line)"

definition match_category :: "string \<Rightarrow> error + string option" where
  "match_category line = match_category_in category_patterns line"

definition truthy :: "string option \<Rightarrow> bool" where
  "truthy v = (case v of None \<Rightarrow> False | Some s \<Rightarrow> s \<noteq> [])"

text \<open>The identifier of a matched line: the number, else the letter, else the numeral.\<close>

definition match_number :: "(string \<times> string option) list \<Rightarrow> string option" where
  "match_number groups =
     (if group_truthy groups ''number'' then Some (group_val groups ''number'')
      else if group_truthy groups ''letter'' then Some (group_val groups ''letter'')
      else if group_truthy groups ''roman'' then Some (group_val groups ''roman'')
      else None)"

text \<open>
  The body of the loop over the component patterns for a pattern that matched. The
  description is read with \<^verbatim>\<open>groups.get('description', '').strip()\<close> whenever the pattern
  has such a group, so a description group that took no part raises AttributeError.
\<close>

definition component_of_match :: "regex \<Rightarrow> mstate \<Rightarrow> string \<Rightarrow> error + component option" where
  "component_of_match p m line =
     (case get_stripped (groupdict p m) ''title'' of
        Inl e \<Rightarrow> Inl e
      | Inr t \<Rightarrow>
          (case (if ''description'' \<in> set (map fst (groupdict p m))
                 then (case get_stripped (groupdict p m) ''description'' of
                         Inl e \<Rightarrow> Inl e
                       | Inr d \<Rightarrow> Inr (Some d))
                 else Inr None) of
             Inl e \<Rightarrow> Inl e
           | Inr d \<Rightarrow>
               if truthy (match_number (groupdict p m)) \<and> t \<noteq> []
               then Inr (Some (Component (the (match_number (groupdict p m))) t d line))
               else Inr None))"

fun try_component_patterns :: "regex list \<Rightarrow> string \<Rightarrow> error + component option" where
  "try_component_patterns [] line = Inr None"
| "try_component_patterns (p # ps) line =
     (case re_match p line of
        None \<Rightarrow> try_component_patterns ps line
      | Some m \<Rightarrow>
          (case component_of_match p m line of
             Inl e \<Rightarrow> Inl e
           | Inr (Some c) \<Rightarrow> Inr (Some c)
           | Inr None \<Rightarrow> try_component_patterns ps line))"

definition component_fallback :: "string \<Rightarrow> component option" where
  "component_fallback line =
     (case re_match flexible_pattern (strip line) of
        Some m \<Rightarrow> Some (Component (group m ''1'') (strip (group m ''2'')) None line)
      | None \<Rightarrow>
          (case re_match numbered_pattern (strip line) of
             Some m \<Rightarrow>
               if strip (group m ''2'') \<noteq> []
               then Some (Component (group m ''1'') (strip (group m ''2'')) None line)
               else None
           | None \<Rightarrow> None))"

definition parse_component_line :: "string \<Rightarrow> error + component option" where
  "parse_component_line line =
     (case try_component_patterns component_patterns line of
        Inl e \<Rightarrow> Inl e
      | Inr (Some c) \<Rightarrow> Inr (Some c)
      | Inr None \<Rightarrow> Inr (component_fallback line))"

subsection \<open>The loop over the lines\<close>

record comp_loop =
  extractor :: component_extractor
  current_category :: "string option"
  category_components :: "nat list"
  pending_number :: "string option"

text \<open>Appending a new component to the flat list and, under an open category, to it.\<close>

definition add_component :: "component \<Rightarrow> comp_loop \<Rightarrow> comp_loop" where
  "add_component c s =
     s\<lparr>extractor := (extractor s)\<lparr>components := components (extractor s) @ [c]\<rparr>,
       category_components :=
         (if truthy (current_category s)
          then category_components s @ [length (components (extractor s))]
          else category_components s)\<rparr>"

text \<open>Closing the open category, if it has a name and at least one component.\<close>

definition close_category :: "comp_loop \<Rightarrow> component_extractor" where
  "close_category s =
     (if truthy (current_category s) \<and> category_components s \<noteq> []
      then (extractor s)\<lparr>categories := categories (extractor s) @
              [ComponentCategory (the (current_category s)) (category_components s)]\<rparr>
      else extractor s)"

text \<open>
  A line with no number pending before it: a category header, a number alone on the
  line, a component, or a line that matches nothing.
\<close>

definition classify_line :: "string \<Rightarrow> comp_loop \<Rightarrow> error + comp_loop" where
  "classify_line line s =
     (case match_category line of
        Inl e \<Rightarrow> Inl e
      | Inr category_match \<Rightarrow>
          if truthy category_match then
            Inr (s\<lparr>extractor := close_category s, current_category := category_match,
                   category_components := []\<rparr>)
          else
            (case re_match standalone_pattern (strip line) of
               Some m \<Rightarrow> Inr (s\<lparr>pending_number := Some (group m ''1'')\<rparr>)
             | None \<Rightarrow>
                 (case parse_component_line line of
                    Inl e \<Rightarrow> Inl e
                  | Inr (Some c) \<Rightarrow> Inr (add_component c s)
                  | Inr None \<Rightarrow> Inr s)))"

text \<open>
  The body of the loop for one line, already trimmed on the right and not blank. With a
  number pending, a line that is no category header and does not start a numbered
  component is merged with the number; any other line drops the number and is classified.
\<close>

definition comp_line :: "string \<Rightarrow> comp_loop \<Rightarrow> error + comp_loop" where
  "comp_line line s =
     (if truthy (pending_number s) then
        (case match_category line of
           Inl e \<Rightarrow> Inl e
         | Inr cat \<Rightarrow>
             if \<not> truthy cat \<and> re_match numbered_start_pattern line = None then
               Inr (add_component
                      (Component (the (pending_number s)) (strip line) None
                         (the (pending_number s) @ ''. '' @ strip line))
                      (s\<lparr>pending_number := None\<rparr>))
             else classify_line line (s\<lparr>pending_number := None\<rparr>))
      else classify_line line s)"

fun comp_pass :: "string list \<Rightarrow> comp_loop \<Rightarrow> error option \<times> comp_loop" where
  "comp_pass [] s = (None, s)"
| "comp_pass (l # ls) s =
     (if strip (rstrip l) = [] then comp_pass ls s
      else
        (case comp_line (rstrip l) s of
           Inl e \<Rightarrow> (Some e, s)
         | Inr s' \<Rightarrow> comp_pass ls s'))"

subsection \<open>Repairing the titles\<close>

text \<open>
  \<^verbatim>\<open>re.sub(pattern, repl, s)\<close>: the matches are replaced from left to right. An empty
  match counts as no match here; none of the three patterns substituted can match the
  empty string.
\<close>

primrec sub_from :: "regex \<Rightarrow> string \<Rightarrow> nat \<Rightarrow> nat \<Rightarrow> string \<Rightarrow> string" where
  "sub_from r repl 0 i s = s"
| "sub_from r repl (Suc fuel) i s =
     (case matchk r Some (i, s, []) of
        Some m \<Rightarrow>
          if length (rest m) < length s then repl @ sub_from r repl fuel (pos m) (rest m)
          else (case s of [] \<Rightarrow> [] | c # cs \<Rightarrow> c # sub_from r repl fuel (Suc i) cs)
      | None \<Rightarrow> (case s of [] \<Rightarrow> [] | c # cs \<Rightarrow> c # sub_from r repl fuel (Suc i) cs))"

definition re_sub :: "regex \<Rightarrow> string \<Rightarrow> string \<Rightarrow> string" where
  "re_sub r repl s = sub_from r repl (Suc (length s)) 0 s"

text \<open>\<^verbatim>\<open>s.split()\<close>: the words between runs of whitespace.\<close>

fun split_ws :: "string \<Rightarrow> string \<Rightarrow> string list" where
  "split_ws cur [] = (if cur = [] then [] else [cur])"
| "split_ws cur (c # cs) =
     (if isspace c then (if cur = [] then split_ws [] cs else cur # split_ws [] cs)
      else split_ws (cur @ [c]) cs)"

definition py_split :: "string \<Rightarrow> string list" where
  "py_split s = split_ws [] s"

fun join :: "string \<Rightarrow> string list \<Rightarrow> string" where
  "join sep [] = []"
| "join sep [w] = w"
| "join sep (w # v # ws) = w @ sep @ join sep (v # ws)"

definition known_titles :: "(string \<times> string) list" where
  "known_titles =
     [(''1'', ''Vision and Mission of the University and Department''),
      (''2'', ''Faculty profiles and individual timetables''),
      (''3'', ''Course handout and closure report''),
      (''4'', ''Name list of students (section wise)''),
      (''5'', ''Mid Term Exam question papers'')]"

definition fix_known :: "component \<Rightarrow> component" where
  "fix_known c =
     (case map_of known_titles (number c) of
        Some t \<Rightarrow>
          if startswith (comp_title c) ''('' \<or> contains (lower (comp_title c)) ''teaching''
             \<or> length (strip (comp_title c)) < 15
          then c\<lparr>comp_title := t\<rparr> else c
      | None \<Rightarrow> c)"

definition bare_number_pattern :: regex where
  "bare_number_pattern = Cat [Bol, Plus Digit, Opt (Lit ''.''), Star Space, Eol]"

definition parenthetical_pattern :: regex where
  "parenthetical_pattern = Cat [Lit ''('', Star (Chr (none_of '')'')), Lit '')'']"

definition whitespace_run :: regex where
  "whitespace_run = Plus Space"

definition punctuation :: regex where
  "punctuation = Chr (one_of ''-.,;:'')"

definition punctuation_run :: regex where
  "punctuation_run = Cat [Plus punctuation, Plus (Cat [Plus Space, Plus punctuation])]"

definition continuation_verbs :: "string list" where
  "continuation_verbs = [''is '', ''are '', ''was '', ''were '', ''teaching '']"

record repair_state =
  repaired :: "component list"
  previous_title :: string
  main_topic :: string

definition set_title :: "component list \<Rightarrow> nat \<Rightarrow> string \<Rightarrow> component list" where
  "set_title cs i t = cs[i := (cs ! i)\<lparr>comp_title := t\<rparr>]"

text \<open>The search for a main topic among the components \<open>js\<close>: the first three words of
  the first title of at least three words, else the empty topic as before.\<close>

fun topic_search :: "component list \<Rightarrow> nat list \<Rightarrow> string" where
  "topic_search cs [] = []"
| "topic_search cs (j # js) =
     (if 3 \<le> length (py_split (comp_title (cs ! j)))
      then join '' '' (take 3 (py_split (comp_title (cs ! j))))
      else topic_search cs js)"

definition prefix_parenthetical :: "repair_state \<Rightarrow> nat \<Rightarrow> string \<Rightarrow> repair_state" where
  "prefix_parenthetical st i t =
     (if 0 < i \<and> previous_title st \<noteq> []
      then st\<lparr>repaired := set_title (repaired st) i
                 (strip (re_sub parenthetical_pattern [] (previous_title st)) @ '' '' @ t)\<rparr>
      else st)"

definition prefix_topic :: "repair_state \<Rightarrow> nat \<Rightarrow> string \<Rightarrow> repair_state" where
  "prefix_topic st i t =
     (if 0 < i then
        (let topic = (if main_topic st = [] \<and> 1 < i
                      then topic_search (repaired st) [i - 3..<i] else main_topic st)
         in st\<lparr>main_topic := topic,
               repaired := set_title (repaired st) i
                 (if topic \<noteq> [] then topic @ '' - '' @ t
                  else previous_title st @ '' - '' @ t)\<rparr>)
      else st)"

definition remember_title :: "repair_state \<Rightarrow> string \<Rightarrow> repair_state" where
  "remember_title st t =
     (if 3 \<le> length (py_split t) \<and> \<not> startswith t ''(''
      then st\<lparr>previous_title := t,
              main_topic := (if main_topic st = [] then join '' '' (take 3 (py_split t))
                             else main_topic st)\<rparr>
      else st)"

definition repair_step :: "repair_state \<Rightarrow> nat \<Rightarrow> repair_state" where
  "repair_step st i =
     (let t = comp_title (repaired st ! i) in
      if i = 0 \<and> (contains (lower t) ''contents'' \<or> contains (lower t) ''no'') then st
      else if re_match bare_number_pattern t \<noteq> None then
        (if 0 < i \<and> previous_title st \<noteq> []
         then st\<lparr>repaired := set_title (repaired st) i (previous_title st @ '' (continued)'')\<rparr>
         else st)
      else if startswith t ''('' then remember_title (prefix_parenthetical st i t) t
      else if list_ex (startswith (lower t)) continuation_verbs
      then remember_title (prefix_topic st i t) t
      else remember_title st t)"

fun repair_loop :: "nat list \<Rightarrow> repair_state \<Rightarrow> repair_state" where
  "repair_loop [] st = st"
| "repair_loop (i # ns) st = repair_loop ns (repair_step st i)"

definition clean_title :: "component \<Rightarrow> component" where
  "clean_title c =
     c\<lparr>comp_title := re_sub punctuation_run ''. '' (re_sub whitespace_run '' '' (comp_title c))\<rparr>"

definition post_process_components :: "component list \<Rightarrow> component list" where
  "post_process_components cs =
     map clean_title
       (repaired (repair_loop [0..<length cs]
          \<lparr>repaired = map fix_known cs, previous_title = [], main_topic = []\<rparr>))"

subsection \<open>The extraction and the categories by tens\<close>

definition extract_components_from_text ::
  "component_extractor \<Rightarrow> string \<Rightarrow> (error + component list) \<times> component_extractor" where
  "extract_components_from_text st text =
     (case comp_pass (split_on NL text)
             \<lparr>extractor = st\<lparr>components := [], categories := []\<rparr>, current_category = None,
              category_components = [], pending_number = None\<rparr> of
        (Some e, s) \<Rightarrow> (Inl e, extractor s)
      | (None, s) \<Rightarrow>
          (let st1 = close_category s;
               st2 = st1\<lparr>components := post_process_components (components st1)\<rparr>
           in (Inr (components st2), st2)))"

text \<open>\<^verbatim>\<open>str(n)\<close> for an integer, as the f-string of the category name prints it.\<close>

function str_nat :: "nat \<Rightarrow> string" where
  "str_nat n = (if n < 10 then [char_of (48 + n)] else str_nat (n div 10) @ [char_of (48 + n mod 10)])"
  by pat_completeness auto
termination
  by (relation "measure (\<lambda>n. n)") auto

declare str_nat.simps [simp del]

definition str_int :: "int \<Rightarrow> string" where
  "str_int i = (if i < 0 then CHR ''-'' # str_nat (nat (- i)) else str_nat (nat i))"

text \<open>
  The loop of \<^verbatim>\<open>organize_by_categories\<close> over the components, \<open>i\<close> the index of the next
  one and \<open>n\<close> the length of the flat list: a component whose number is an integer
  goes to the category of its ten, created at its first member; any other is skipped.
\<close>

definition tens_name :: "int \<Rightarrow> nat \<Rightarrow> string" where
  "tens_name category_id n =
     ''Components '' @ str_int (category_id * 10 + 1) @ ''-''
       @ str_int (min ((category_id + 1) * 10) (int n))"

fun organize_loop ::
  "nat \<Rightarrow> nat \<Rightarrow> component list \<Rightarrow> (int \<times> component_category) list \<Rightarrow>
     (int \<times> component_category) list" where
  "organize_loop n i [] d = d"
| "organize_loop n i (c # cs) d =
     (case py_int (number c) of
        None \<Rightarrow> organize_loop n (Suc i) cs d
      | Some num \<Rightarrow>
          (let category_id = (num - 1) div 10;
               cat = (case map_of d category_id of
                        None \<Rightarrow> ComponentCategory (tens_name category_id n) []
                      | Some x \<Rightarrow> x)
           in organize_loop n (Suc i) cs
                (dict_set d category_id (cat\<lparr>cat_components := cat_components cat @ [i]\<rparr>))))"

definition organize_by_categories ::
  "component_extractor \<Rightarrow> component_category list \<times> component_extractor" where
  "organize_by_categories st =
     (if categories st = [] then
        (let cats = map snd (organize_loop (length (components st)) 0 (components st) [])
         in (cats, st\<lparr>categories := cats\<rparr>))
      else (categories st, st))"

section \<open>Example inputs and reference notions\<close>

text \<open>The four-line table of contents of the specification's hierarchy example.\<close>

definition toc_example :: string where
  "toc_example = ''1. A'' @ [NL] @ ''  1.1 B'' @ [NL] @ ''  1.2 C'' @ [NL] @ ''2. D''"

definition two_line_toc :: string where
  "two_line_toc = ''Introduction 10'' @ [NL] @ ''Methods 12''"




text \<open>
  The categories by tens, as the specification describes them. A component is in the
  bucket \<open>k\<close> when its number reads as an integer from \<open>10 k + 1\<close> to \<open>10 k + 10\<close>; a
  component whose number is no integer is in no bucket.
\<close>

definition in_tens :: "int \<Rightarrow> component \<Rightarrow> bool" where
  "in_tens k c =
     (case py_int (number c) of
        None \<Rightarrow> False
      | Some num \<Rightarrow> 10 * k + 1 \<le> num \<and> num \<le> 10 * k + 10)"

definition tens_bucket :: "component \<Rightarrow> int option" where
  "tens_bucket c = map_option (\<lambda>num. (num - 1) div 10) (py_int (number c))"

text \<open>The values of a list, each once, in the order of their first occurrences.\<close>

definition first_seen :: "'a list \<Rightarrow> 'a list" where
  "first_seen xs = rev (remdups (rev xs))"

text \<open>
  The category of the bucket \<open>k\<close> among \<open>n\<close> components in all: its name gives the range
  of the bucket, cut at \<open>n\<close>, and its members are the components of the bucket, in the
  order of the list.
\<close>

definition tens_category :: "nat \<Rightarrow> component list \<Rightarrow> int \<Rightarrow> component_category" where
  "tens_category n cs k =
     \<lparr>cat_name = ''Components '' @ str_int (10 * k + 1) @ ''-''
                   @ str_int (min (10 * k + 10) (int n)),
      cat_components = filter (\<lambda>i. in_tens k (cs ! i)) [0..<length cs]\<rparr>"

text \<open>One category for each bucket that has a member, in the order of their first members.\<close>

definition tens_categories_of :: "component list \<Rightarrow> component_category list" where
  "tens_categories_of cs =
     map (tens_category (length cs) cs) (first_seen (List.map_filter tens_bucket cs))"

text \<open>A component that has a number and nothing else.\<close>

definition numbered :: "string \<Rightarrow> component" where
  "numbered n = Component n [] None []"

definition mixed_example :: component_extractor where
  "mixed_example = \<lparr>components = map numbered [''3'', ''a'', ''15'', ''iv''], categories = []\<rparr>"

definition numbers_1_to_23 :: component_extractor where
  "numbers_1_to_23 = \<lparr>components = map numbered (map str_nat [1..<24]), categories = []\<rparr>"


section \<open>Facts about strings\<close>






lemma rstrip_keep: "s \<noteq> [] \<Longrightarrow> \<not> isspace (last s) \<Longrightarrow> rstrip s = s"
  by (cases s rule: rev_cases) (auto simp: rstrip_def)

lemma lstrip_spaces:
  "list_all isspace sp \<Longrightarrow> s \<noteq> [] \<Longrightarrow> \<not> isspace (hd s) \<Longrightarrow> lstrip (sp @ s) = s"
  by (induction sp) (auto simp: lstrip_def neq_Nil_conv)

lemma strip_token:
  assumes "list_all isspace sp" "s \<noteq> []" "\<not> isspace (hd s)" "\<not> isspace (last s)"
  shows "strip (sp @ s) = s"
proof -
  have "rstrip (sp @ s) = sp @ s" using assms by (intro rstrip_keep) auto
  then show ?thesis using assms by (simp add: strip_def lstrip_spaces)
qed








section \<open>The matcher and what a pattern allows\<close>

lemma rep_sound:
  assumes body: "\<And>k s m. mr k s = Some m \<Longrightarrow> \<exists>s'. R s s' \<and> k s' = Some m"
  shows "rep mr g lo hi fuel k s = Some m \<Longrightarrow>
     \<exists>n s'. lo \<le> n \<and> (case hi of None \<Rightarrow> True | Some h \<Rightarrow> n \<le> h)
        \<and> ((\<lambda>a b. R a b \<and> length (rest b) < length (rest a)) ^^ n) s s' \<and> k s' = Some m"
proof (induction fuel arbitrary: lo hi s)
  case 0
  then have "lo = 0" "k s = Some m" by (auto split: if_splits)
  then have "lo \<le> 0 \<and> (case hi of None \<Rightarrow> True | Some h \<Rightarrow> 0 \<le> h)
        \<and> ((\<lambda>a b. R a b \<and> length (rest b) < length (rest a)) ^^ 0) s s \<and> k s = Some m"
    by (simp split: option.splits)
  then show ?case by blast
next
  case (Suc fuel)
  let ?P = "\<lambda>a b. R a b \<and> length (rest b) < length (rest a)"
  let ?K = "\<lambda>s'. if length (rest s') < length (rest s)
                 then rep mr g (lo - 1) (map_option (\<lambda>h. h - 1) hi) fuel k s' else None"
  have stay: "lo = 0 \<Longrightarrow> k s = Some m \<Longrightarrow> ?case"
  proof -
    assume "lo = 0" "k s = Some m"
    then have "lo \<le> 0 \<and> (case hi of None \<Rightarrow> True | Some h \<Rightarrow> 0 \<le> h)
        \<and> (?P ^^ 0) s s \<and> k s = Some m"
      by (simp split: option.splits)
    then show ?case by blast
  qed
  have more: "hi \<noteq> Some 0 \<Longrightarrow> mr ?K s = Some m \<Longrightarrow> ?case"
  proof -
    assume hi: "hi \<noteq> Some 0" and "mr ?K s = Some m"
    then obtain s1 where s1: "R s s1" "?K s1 = Some m" using body by blast
    then have lt: "length (rest s1) < length (rest s)"
      and r: "rep mr g (lo - 1) (map_option (\<lambda>h. h - 1) hi) fuel k s1 = Some m"
      by (auto split: if_splits)
    from Suc.IH[OF r] obtain n s' where n: "lo - 1 \<le> n"
      "(case map_option (\<lambda>h. h - 1) hi of None \<Rightarrow> True | Some h \<Rightarrow> n \<le> h)"
      "(?P ^^ n) s1 s'" "k s' = Some m"
      by blast
    have "?P s s1" using s1(1) lt by simp
    then have "(?P ^^ Suc n) s s'" using n(3) by (rule relpowp_Suc_I2)
    moreover have "lo \<le> Suc n" using n(1) by simp
    moreover have "(case hi of None \<Rightarrow> True | Some h \<Rightarrow> Suc n \<le> h)"
      using n(2) hi by (cases hi) auto
    ultimately show ?case using n(4) by blast
  qed
  from Suc.prems have "(lo = 0 \<and> k s = Some m) \<or> (hi \<noteq> Some 0 \<and> mr ?K s = Some m)"
    by (simp split: if_splits option.splits)
  then show ?case using stay more by blast
qed

lemma matchk_sound:
  "matchk r k s = Some m \<Longrightarrow> \<exists>s'. sem r s s' \<and> k s' = Some m"
proof (induction r arbitrary: k s m)
  case Eps
  then have "sem Eps s s \<and> k s = Some m" by simp
  then show ?case by (rule exI)
next
  case (Chr p)
  then obtain c cs where "rest s = c # cs" "p c" "k (pos s + 1, cs, caps s) = Some m"
    by (cases "rest s") (simp_all split: if_splits)
  then have "sem (Chr p) s (pos s + 1, cs, caps s) \<and> k (pos s + 1, cs, caps s) = Some m"
    by simp
  then show ?case by (rule exI)
next
  case (Seq a b)
  from Seq.prems have "matchk a (matchk b k) s = Some m" by simp
  from Seq.IH(1)[OF this] obtain t where t: "sem a s t" "matchk b k t = Some m" by blast
  from Seq.IH(2)[OF t(2)] obtain s' where s': "sem b t s'" "k s' = Some m" by blast
  have "sem (Seq a b) s s'" using t(1) s'(1) by (simp del: split_paired_Ex) (rule exI, rule conjI)
  then have "sem (Seq a b) s s' \<and> k s' = Some m" using s'(2) by simp
  then show ?case by (rule exI)
next
  case (Alt a b)
  from Alt.prems have "matchk a k s = Some m \<or> matchk b k s = Some m"
    by (cases "matchk a k s") simp_all
  then show ?case
  proof
    assume "matchk a k s = Some m"
    from Alt.IH(1)[OF this] obtain s' where "sem a s s'" "k s' = Some m" by blast
    then have "sem (Alt a b) s s' \<and> k s' = Some m" by simp
    then show ?thesis by (rule exI)
  next
    assume "matchk b k s = Some m"
    from Alt.IH(2)[OF this] obtain s' where "sem b s s'" "k s' = Some m" by blast
    then have "sem (Alt a b) s s' \<and> k s' = Some m" by simp
    then show ?thesis by (rule exI)
  qed
next
  case (Rep g lo hi r)
  from Rep.prems have "rep (matchk r) g lo hi (length (rest s)) k s = Some m" by simp
  from rep_sound[where mr = "matchk r" and R = "sem r", OF Rep.IH this]
  obtain n s' where n: "lo \<le> n" "case hi of None \<Rightarrow> True | Some h \<Rightarrow> n \<le> h"
    "((\<lambda>a b. sem r a b \<and> length (rest b) < length (rest a)) ^^ n) s s'" "k s' = Some m"
    by blast
  have "sem (Rep g lo hi r) s s'"
    unfolding sem.simps using n(1,2,3) by (intro exI[of _ n] conjI)
  then have "sem (Rep g lo hi r) s s' \<and> k s' = Some m" using n(4) by simp
  then show ?case by (rule exI)
next
  case (Grp n r)
  from Grp.prems
  have "matchk r (\<lambda>s'. k (pos s', rest s', (n, take (pos s' - pos s) (rest s)) # caps s')) s = Some m"
    by simp
  from Grp.IH[OF this] obtain t where t: "sem r s t"
    "k (pos t, rest t, (n, take (pos t - pos s) (rest s)) # caps t) = Some m" by blast
  have "sem (Grp n r) s (pos t, rest t, (n, take (pos t - pos s) (rest s)) # caps t)"
    unfolding sem.simps using t(1) by (intro exI[of _ t] conjI refl)
  then have "sem (Grp n r) s (pos t, rest t, (n, take (pos t - pos s) (rest s)) # caps t)
      \<and> k (pos t, rest t, (n, take (pos t - pos s) (rest s)) # caps t) = Some m"
    using t(2) by simp
  then show ?case by (rule exI)
next
  case Bol
  then have "pos s = 0" "k s = Some m" by (simp_all split: if_splits)
  then have "sem Bol s s \<and> k s = Some m" by simp
  then show ?case by (rule exI)
next
  case Eol
  then have "rest s = [] \<or> rest s = [NL]" "k s = Some m" by (simp_all split: if_splits)
  then have "sem Eol s s \<and> k s = Some m" by simp
  then show ?case by (rule exI)
qed

lemma rep_complete:
  assumes body: "\<And>k s s' m. R s s' \<Longrightarrow> k s' = Some m \<Longrightarrow> mr k s \<noteq> None"
  shows "((\<lambda>a b. R a b \<and> length (rest b) < length (rest a)) ^^ n) s s' \<Longrightarrow>
     lo \<le> n \<Longrightarrow> (case hi of None \<Rightarrow> True | Some h \<Rightarrow> n \<le> h) \<Longrightarrow>
     length (rest s) \<le> fuel \<Longrightarrow> k s' = Some m \<Longrightarrow> rep mr g lo hi fuel k s \<noteq> None"
proof (induction fuel arbitrary: n lo hi s)
  case 0
  then have e: "rest s = []" by simp
  have "n = 0"
  proof (cases n)
    case 0
    then show ?thesis .
  next
    case (Suc n')
    with "0.prems"(1) obtain s1 where "R s s1 \<and> length (rest s1) < length (rest s)"
      using relpowp_Suc_D2[where n = n' and x = s and z = s'] by blast
    then show ?thesis using e by simp
  qed
  then show ?case using "0.prems" by simp
next
  case (Suc fuel)
  let ?P = "\<lambda>a b. R a b \<and> length (rest b) < length (rest a)"
  let ?K = "\<lambda>s'. if length (rest s') < length (rest s)
                 then rep mr g (lo - 1) (map_option (\<lambda>h. h - 1) hi) fuel k s' else None"
  have step: "mr ?K s \<noteq> None" if pos: "0 < n"
  proof -
    obtain n' where n': "n = Suc n'" using pos by (cases n) auto
    then obtain s1 where s1: "?P s s1" "(?P ^^ n') s1 s'"
      using Suc.prems(1) relpowp_Suc_D2[where P = ?P and n = n' and x = s and z = s'] by blast
    have "rep mr g (lo - 1) (map_option (\<lambda>h. h - 1) hi) fuel k s1 \<noteq> None"
    proof (rule Suc.IH[OF s1(2)])
      show "lo - 1 \<le> n'" using Suc.prems(2) n' by simp
      show "case map_option (\<lambda>h. h - 1) hi of None \<Rightarrow> True | Some h \<Rightarrow> n' \<le> h"
        using Suc.prems(3) n' by (cases hi) auto
      show "length (rest s1) \<le> fuel" using s1(1) Suc.prems(4) by simp
      show "k s' = Some m" by (rule Suc.prems(5))
    qed
    then obtain m1 where m1: "?K s1 = Some m1" using s1(1) by auto
    have r: "R s s1" using s1(1) by simp
    show ?thesis by (rule body[OF r]) (rule m1)
  qed
  define inner where "inner = mr ?K s"
  have unfold: "rep mr g lo hi (Suc fuel) k s =
      (if hi = Some 0 then (if lo = 0 then k s else None)
       else if 0 < lo then inner
       else if g then (case inner of Some r \<Rightarrow> Some r | None \<Rightarrow> k s)
       else (case k s of Some r \<Rightarrow> Some r | None \<Rightarrow> inner))"
    unfolding inner_def by (rule rep.simps(2))
  show ?case
  proof (cases "n = 0")
    case True
    then have "s' = s" "lo = 0" using Suc.prems by auto
    then have "k s = Some m" "lo = 0" using Suc.prems(5) by simp_all
    then show ?thesis unfolding unfold by (cases inner) (simp_all del: split_paired_Ex)
  next
    case False
    then have "inner \<noteq> None" using step by (simp add: inner_def)
    then obtain m2 where m2: "inner = Some m2" by (simp only: not_None_eq) (erule exE)
    have hi: "hi \<noteq> Some 0" using False Suc.prems(3) by auto
    show ?thesis unfolding unfold using m2 hi by (cases "k s") (simp_all del: split_paired_Ex)
  qed
qed

lemma matchk_complete:
  "sem r s s' \<Longrightarrow> k s' = Some m \<Longrightarrow> matchk r k s \<noteq> None"
proof (induction r arbitrary: k s s' m)
  case Eps
  then show ?case by simp
next
  case (Chr p)
  from Chr(1) obtain c cs where c: "rest s = c # cs" "p c" "s' = (pos s + 1, cs, caps s)"
    by (cases "rest s") simp_all
  then show ?case using Chr(2) by simp
next
  case (Seq a b)
  from Seq.prems(1) obtain t where t: "sem a s t" "sem b t s'" unfolding sem.simps by blast
  have "matchk b k t \<noteq> None" by (rule Seq.IH(2)[OF t(2)]) (rule Seq.prems(2))
  then obtain m1 where m1: "matchk b k t = Some m1" by (simp only: not_None_eq) (erule exE)
  have "matchk a (matchk b k) s \<noteq> None" by (rule Seq.IH(1)[OF t(1)]) (rule m1)
  then show ?case by simp
next
  case (Alt a b)
  from Alt.prems(1) have "sem a s s' \<or> sem b s s'" by simp
  then have "matchk a k s \<noteq> None \<or> matchk b k s \<noteq> None"
  proof
    assume a: "sem a s s'"
    have "matchk a k s \<noteq> None" by (rule Alt.IH(1)[OF a]) (rule Alt.prems(2))
    then show ?thesis by (rule disjI1)
  next
    assume b: "sem b s s'"
    have "matchk b k s \<noteq> None" by (rule Alt.IH(2)[OF b]) (rule Alt.prems(2))
    then show ?thesis by (rule disjI2)
  qed
  then show ?case by (cases "matchk a k s") (simp_all del: split_paired_Ex)
next
  case (Rep g lo hi r)
  from Rep.prems(1) obtain n where n: "lo \<le> n" "case hi of None \<Rightarrow> True | Some h \<Rightarrow> n \<le> h"
    "((\<lambda>a b. sem r a b \<and> length (rest b) < length (rest a)) ^^ n) s s'"
    unfolding sem.simps by blast
  have body: "\<And>k s s' m. sem r s s' \<Longrightarrow> k s' = Some m \<Longrightarrow> matchk r k s \<noteq> None"
    by (rule Rep.IH)
  have "rep (matchk r) g lo hi (length (rest s)) k s \<noteq> None"
    using rep_complete[where R = "sem r" and mr = "matchk r" and k = k and m = m and s = s
        and s' = s' and n = n and lo = lo and hi = hi and fuel = "length (rest s)" and g = g,
        OF body n(3) n(1) n(2) le_refl Rep.prems(2)] .
  then show ?case by simp
next
  case (Grp n r)
  from Grp.prems(1) obtain t where t: "sem r s t"
    "s' = (pos t, rest t, (n, take (pos t - pos s) (rest s)) # caps t)"
    unfolding sem.simps by blast
  have "(\<lambda>s'. k (pos s', rest s', (n, take (pos s' - pos s) (rest s)) # caps s')) t = Some m"
    using t(2) Grp.prems(2) by simp
  then have "matchk r (\<lambda>s'. k (pos s', rest s', (n, take (pos s' - pos s) (rest s)) # caps s')) s
      \<noteq> None"
    by (rule Grp.IH[OF t(1)])
  then show ?case by simp
next
  case Bol
  then show ?case by auto
next
  case Eol
  then show ?case by auto
qed

lemma re_match_sem: "re_match r line = Some m \<Longrightarrow> sem r (0, line, []) m"
proof -
  assume "re_match r line = Some m"
  then have "matchk r Some (0, line, []) = Some m" by (simp add: re_match_def)
  from matchk_sound[OF this] obtain s' where "sem r (0, line, []) s'" "Some s' = Some m"
    by blast
  then show ?thesis by simp
qed

lemma sem_re_match: "sem r (0, line, []) m \<Longrightarrow> \<exists>m'. re_match r line = Some m'"
  using matchk_complete[of r "(0, line, [])" m Some m] by (simp add: re_match_def)

section \<open>The table-of-contents extractor: lines\<close>

lemma toc_example_lines:
  "split_on NL toc_example = [''1. A'', ''  1.1 B'', ''  1.2 C'', ''2. D'']"
  by code_simp

lemma toc_example_trimmed:
  "strip (rstrip ''1. A'') = ''1. A''" "strip (rstrip ''2. D'') = ''2. D''"
  "strip (rstrip ''  1.1 B'') = ''1.1 B''" "strip (rstrip ''  1.2 C'') = ''1.2 C''"
  "rstrip ''  1.1 B'' = ''  1.1 B''" "rstrip ''  1.2 C'' = ''  1.2 C''"
  by code_simp+

lemma toc_example_unparsed:
  "parse_toc_line ''  1.1 B'' = Inr None" "parse_toc_line ''  1.2 C'' = Inr None"
  by code_simp+

lemma toc_example_first_pass:
  "toc_first_pass (split_on NL toc_example) st = (None, st)"
  by (simp add: toc_example_lines toc_example_trimmed toc_example_unparsed)

text \<open>
  Claim C1, as the code has it. None of the four lines of the example ends in a page
  number, which every line pattern and the last resort require, and the lines
  \<^verbatim>\<open>1. A\<close> and \<^verbatim>\<open>2. D\<close> are shorter than five characters: table-of-contents
  extraction of the example returns the empty forest, whatever the extractor held before.
\<close>

theorem toc_example_empty:
  "extract_toc_from_text cap st toc_example False =
     (Inr (Toc []), st\<lparr>objects := [], toc_entries := []\<rparr>)"
  by (simp add: extract_toc_from_text_def extract_toc_def toc_example_first_pass)

text \<open>
  Claim C1 as stated fails on the example: the extraction returns no root and creates no
  entry at all, so there is no entry titled A with the children B and C, and no root D.
\<close>

theorem toc_example_counterexample:
  "fst (extract_toc_from_text PY_SSIZE_T_MAX TOCExtractor toc_example False) = Inr (Toc [])
   \<and> objects (snd (extract_toc_from_text PY_SSIZE_T_MAX TOCExtractor toc_example False)) = []"
  by (simp add: extract_toc_from_text_def extract_toc_def toc_example_first_pass)

lemma short_lines_filtered:
  "toc_first_pass ls st = toc_first_pass (filter (\<lambda>l. 5 \<le> length (strip (rstrip l))) ls) st"
proof (induction ls arbitrary: st)
  case Nil
  show ?case by simp
next
  case (Cons l ls)
  show ?case
  proof (cases "5 \<le> length (strip (rstrip l))")
    case True
    then have ne: "strip (rstrip l) \<noteq> []" by auto
    show ?thesis using True ne Cons.IH
      by (simp split: sum.splits option.splits)
  next
    case False
    then show ?thesis using Cons.IH by simp
  qed
qed

lemma short_lines_first_pass:
  "list_all (\<lambda>l. length (strip (rstrip l)) < 5) ls \<Longrightarrow> toc_first_pass ls st = (None, st)"
  by (induction ls) auto

text \<open>
  Claim C10. The loop over the lines gives the same result as on the lines of trimmed
  length at least five alone, so a shorter line never reaches a pattern and never gives
  an entry; a text all of whose lines are shorter gives the empty forest.
\<close>

theorem short_lines_discarded:
  "toc_first_pass ls st = toc_first_pass (filter (\<lambda>l. 5 \<le> length (strip (rstrip l))) ls) st
   \<and> (list_all (\<lambda>l. length (strip (rstrip l)) < 5) (split_on NL text) \<longrightarrow>
        extract_toc_from_text cap st text False =
          (Inr (Toc []), st\<lparr>objects := [], toc_entries := []\<rparr>))"
  using short_lines_filtered[of ls st]
  by (simp add: extract_toc_from_text_def extract_toc_def short_lines_first_pass)

text \<open>
  The line \<^verbatim>\<open>A 1\<close> matches a line pattern (the classifier gives the entry A, page 1), and
  the extraction of it gives no entry.
\<close>

theorem short_lines_discarded_witness:
  "parse_toc_line ''A 1'' = Inr (Some (TOCEntry 0 ''A'' (Some 1) ''A 1''))
   \<and> extract_toc_from_text PY_SSIZE_T_MAX TOCExtractor ''A 1'' False =
       (Inr (Toc []), TOCExtractor)"
proof -
  have p: "parse_toc_line ''A 1'' = Inr (Some (TOCEntry 0 ''A'' (Some 1) ''A 1''))"
    by code_simp
  have s: "list_all (\<lambda>l. length (strip (rstrip l)) < 5) (split_on NL ''A 1'')"
    by code_simp
  show ?thesis
    using p s short_lines_discarded[of "[]" TOCExtractor "''A 1''" PY_SSIZE_T_MAX]
    by (simp add: TOCExtractor_def)
qed

section \<open>The hierarchy pass raises\<close>

lemma eval_keys_empty_index:
  "xs \<noteq> [] \<Longrightarrow> eval_keys (entry_key objs []) xs = Inl ValueError"
  by (cases xs) (simp_all add: entry_key_def)

lemma determine_hierarchy_raises:
  "toc_entries st \<noteq> [] \<Longrightarrow> determine_hierarchy st = (Inl ValueError, st)"
  by (simp add: determine_hierarchy_def py_sort_by_key_def eval_keys_empty_index)

text \<open>
  Claim C3 fails on the code: the one-line text \<^verbatim>\<open>Introduction 10\<close> is classified as an
  entry, the hierarchy pass then sorts the entry list with a key that looks each entry up
  in the list being sorted, and the ValueError of that lookup leaves
  \<^verbatim>\<open>extract_toc_from_text\<close>.
\<close>

theorem extract_toc_raises:
  "fst (extract_toc_from_text cap TOCExtractor ''Introduction 10'' False) = Inl ValueError"
proof -
  have "extract_toc TOCExtractor ''Introduction 10'' =
      (Inl ValueError,
       \<lparr>objects = [TOCEntry 0 ''Introduction'' (Some 10) ''Introduction 10''],
        toc_entries = [0], index_entries = []\<rparr>)"
    by code_simp
  then show ?thesis by (simp add: extract_toc_from_text_def)
qed

text \<open>
  Claim C9 fails on the code: the indented, dotted line \<^verbatim>\<open>  Intro..10\<close> is matched by
  the first pattern, whose prefix is optional, before the indentation patterns are
  reached; it gets level 0, not half its indentation.
\<close>

theorem indented_line_level:
  "parse_toc_line ''  Intro..10'' =
     Inr (Some \<lparr>level = 0, title = ''Intro'', page_num = Some 10,
                raw_text = ''  Intro..10'', children = []\<rparr>)"
  by code_simp

section \<open>The index extractor: page lists\<close>

























section \<open>The categories by tens\<close>

lemma digit_char_not_space: "m < 10 \<Longrightarrow> \<not> isspace (char_of (48 + m :: nat))"
proof -
  have "\<forall>m \<in> set [0..<10]. \<not> isspace (char_of (48 + m :: nat))" by code_simp
  then show "m < 10 \<Longrightarrow> \<not> isspace (char_of (48 + m :: nat))" by simp
qed

lemma str_nat_last: "str_nat n \<noteq> [] \<and> \<not> isspace (last (str_nat n))"
  using str_nat.simps[of n] digit_char_not_space[of n] digit_char_not_space[of "n mod 10"]
  by (cases "n < 10") simp_all

lemma str_int_last: "str_int i \<noteq> [] \<and> \<not> isspace (last (str_int i))"
  using str_nat_last by (simp add: str_int_def)

lemma tens_name_strip: "strip (tens_name k n) = tens_name k n"
proof -
  have c: "\<not> isspace CHR ''C''" by code_simp
  have "tens_name k n \<noteq> []" "hd (tens_name k n) = CHR ''C''"
    "last (tens_name k n) = last (str_int (min ((k + 1) * 10) (int n)))"
    using str_int_last by (simp_all add: tens_name_def)
  then show ?thesis
    using strip_token[of "[]" "tens_name k n"] str_int_last c by simp
qed

lemma tens_name_range:
  "tens_name k n =
     ''Components '' @ str_int (10 * k + 1) @ ''-'' @ str_int (min (10 * k + 10) (int n))"
  by (simp add: tens_name_def algebra_simps)

lemma in_tens_bucket: "in_tens k c = (tens_bucket c = Some k)"
  by (auto simp: in_tens_def tens_bucket_def split: option.splits)

lemma first_seen_simps:
  "first_seen [] = []"
  "first_seen (xs @ [x]) = (if x \<in> set xs then first_seen xs else first_seen xs @ [x])"
  "set (first_seen xs) = set xs"
  "distinct (first_seen xs)"
  by (simp_all add: first_seen_def)

lemma map_filter_snoc:
  "List.map_filter f (xs @ [x]) =
     List.map_filter f xs @ (case f x of None \<Rightarrow> [] | Some y \<Rightarrow> [y])"
  by (simp add: List.map_filter_def split: option.splits)

lemma set_map_filter: "set (List.map_filter f xs) = {y. \<exists>x \<in> set xs. f x = Some y}"
  by (induction xs) (auto simp: List.map_filter_simps split: option.splits)

lemma dict_set_new:
  "k \<notin> fst ` set d \<Longrightarrow> dict_set d k v = d @ [(k, v)]"
  by (induction d) auto

lemma dict_set_old:
  "distinct ks \<Longrightarrow> k \<in> set ks \<Longrightarrow>
   dict_set (map (\<lambda>x. (x, f x)) ks) k v = map (\<lambda>x. (x, if x = k then v else f x)) ks"
proof (induction ks)
  case Nil
  then show ?case by simp
next
  case (Cons x xs)
  show ?case
  proof (cases "x = k")
    case True
    then have "k \<notin> set xs" using Cons.prems by simp
    then have "map (\<lambda>x. (x, if x = k then v else f x)) xs = map (\<lambda>x. (x, f x)) xs"
      by (intro map_cong) auto
    then show ?thesis using True by simp
  next
    case False
    then have "k \<in> set xs" "distinct xs" using Cons.prems by auto
    then show ?thesis using Cons.IH False by simp
  qed
qed

lemma map_of_keys:
  "map_of (map (\<lambda>x. (x, f x)) ks) k = (if k \<in> set ks then Some (f k) else None)"
  by (induction ks) auto

lemma organize_loop_snoc:
  "organize_loop n i (cs @ [c]) d = organize_loop n (i + length cs) [c] (organize_loop n i cs d)"
  by (induction cs arbitrary: i d) (simp_all add: Let_def split: option.splits)

text \<open>The members of a bucket after one more component.\<close>

lemma tens_members_snoc:
  "filter (\<lambda>i. in_tens k ((cs @ [c]) ! i)) [0..<length (cs @ [c])] =
     filter (\<lambda>i. in_tens k (cs ! i)) [0..<length cs] @ (if in_tens k c then [length cs] else [])"
proof -
  have "filter (\<lambda>i. in_tens k ((cs @ [c]) ! i)) [0..<length cs] =
      filter (\<lambda>i. in_tens k (cs ! i)) [0..<length cs]"
    by (intro filter_cong) (auto simp: nth_append)
  then show ?thesis by simp
qed

lemma tens_members_empty:
  assumes "k \<notin> set (List.map_filter tens_bucket cs)"
  shows "filter (\<lambda>i. in_tens k (cs ! i)) [0..<length cs] = []"
proof -
  have "\<not> in_tens k (cs ! i)" if "i < length cs" for i
    using assms that nth_mem[of i cs] by (auto simp: set_map_filter in_tens_bucket)
  then show ?thesis by (simp add: filter_empty_conv)
qed

text \<open>
  The dictionary of the loop after the components \<open>cs\<close>, of \<open>n\<close> in all: the buckets seen,
  in the order of their first members, each with its category.
\<close>

lemma organize_loop_tens:
  "organize_loop n 0 cs [] =
     map (\<lambda>k. (k, tens_category n cs k)) (first_seen (List.map_filter tens_bucket cs))"
proof (induction cs rule: rev_induct)
  case Nil
  show ?case by (simp add: List.map_filter_def first_seen_simps)
next
  case (snoc c cs)
  let ?ks = "first_seen (List.map_filter tens_bucket cs)"
  let ?d = "map (\<lambda>k. (k, tens_category n cs k)) ?ks"
  have step: "organize_loop n 0 (cs @ [c]) [] = organize_loop n (length cs) [c] ?d"
    using organize_loop_snoc[of n 0 cs c "[]"] snoc.IH by simp
  show ?case
  proof (cases "py_int (number c)")
    case None
    then have b: "tens_bucket c = None" and m: "\<And>k. \<not> in_tens k c"
      by (simp_all add: tens_bucket_def in_tens_def)
    have "tens_category n (cs @ [c]) k = tens_category n cs k" for k
      unfolding tens_category_def using tens_members_snoc[of k cs c] m by simp
    then show ?thesis using step None b by (simp add: map_filter_snoc)
  next
    case (Some num)
    define k0 where "k0 = (num - 1) div 10"
    have b: "tens_bucket c = Some k0" by (simp add: tens_bucket_def Some k0_def)
    have m: "in_tens k c = (k = k0)" for k using b by (auto simp: in_tens_bucket)
    have other: "tens_category n (cs @ [c]) k = tens_category n cs k" if "k \<noteq> k0" for k
      unfolding tens_category_def using tens_members_snoc[of k cs c] m that by simp
    have own: "tens_category n (cs @ [c]) k0 =
        (tens_category n cs k0)\<lparr>cat_components := cat_components (tens_category n cs k0) @ [length cs]\<rparr>"
      unfolding tens_category_def using tens_members_snoc[of k0 cs c] m by simp
    show ?thesis
    proof (cases "k0 \<in> set (List.map_filter tens_bucket cs)")
      case True
      then have in_ks: "k0 \<in> set ?ks" by (simp add: first_seen_simps)
      have look: "map_of ?d k0 = Some (tens_category n cs k0)"
        using in_ks by (simp add: map_of_keys)
      have "organize_loop n (length cs) [c] ?d =
          dict_set ?d k0 (tens_category n (cs @ [c]) k0)"
        using Some look own by (simp add: Let_def k0_def)
      also have "\<dots> = map (\<lambda>k. (k, if k = k0 then tens_category n (cs @ [c]) k0
                                       else tens_category n cs k)) ?ks"
        using in_ks by (intro dict_set_old) (simp_all add: first_seen_simps)
      also have "\<dots> = map (\<lambda>k. (k, tens_category n (cs @ [c]) k)) ?ks"
        using other by (intro map_cong) auto
      finally show ?thesis using step True b by (simp add: map_filter_snoc first_seen_simps)
    next
      case False
      then have out_ks: "k0 \<notin> set ?ks" by (simp add: first_seen_simps)
      have look: "map_of ?d k0 = None"
        using out_ks by (simp add: map_of_keys)
      have name: "strip (tens_name k0 n) =
          ''Components '' @ str_int (10 * k0 + 1) @ ''-'' @ str_int (min (10 * k0 + 10) (int n))"
        unfolding tens_name_strip by (rule tens_name_range)
      have new: "tens_category n (cs @ [c]) k0 =
          (ComponentCategory (tens_name k0 n) [])\<lparr>cat_components := [] @ [length cs]\<rparr>"
        using own tens_members_empty[OF False]
        by (simp add: tens_category_def ComponentCategory_def name)
      have keys: "k0 \<notin> fst ` set ?d" using out_ks by (auto simp: image_iff)
      have e1: "organize_loop n (length cs) [c] ?d =
          dict_set ?d k0 (tens_category n (cs @ [c]) k0)"
        using Some look new by (simp add: Let_def k0_def ComponentCategory_def)
      have e2: "dict_set ?d k0 (tens_category n (cs @ [c]) k0) =
          ?d @ [(k0, tens_category n (cs @ [c]) k0)]"
        using keys by (rule dict_set_new)
      have e3: "map (\<lambda>k. (k, tens_category n (cs @ [c]) k)) ?ks = ?d"
      proof (intro map_cong refl)
        fix k assume "k \<in> set ?ks"
        then have "k \<noteq> k0" using out_ks by auto
        then show "(k, tens_category n (cs @ [c]) k) = (k, tens_category n cs k)"
          using other[of k] by simp
      qed
      have fs: "first_seen (List.map_filter tens_bucket (cs @ [c])) = ?ks @ [k0]"
        using False b by (simp add: map_filter_snoc first_seen_simps)
      have "organize_loop n 0 (cs @ [c]) [] = ?d @ [(k0, tens_category n (cs @ [c]) k0)]"
        by (simp only: step e1 e2)
      moreover have "map (\<lambda>k. (k, tens_category n (cs @ [c]) k))
          (first_seen (List.map_filter tens_bucket (cs @ [c]))) =
          ?d @ [(k0, tens_category n (cs @ [c]) k0)]"
        by (simp only: fs map_append list.map e3)
      ultimately show ?thesis by (simp only:)
    qed
  qed
qed

lemma organize_by_categories_tens:
  "categories st = [] \<Longrightarrow>
   organize_by_categories st =
     (tens_categories_of (components st), st\<lparr>categories := tens_categories_of (components st)\<rparr>)"
  by (simp add: organize_by_categories_def Let_def organize_loop_tens tens_categories_of_def
      comp_def)

lemma tens_23:
  "tens_categories_of (components numbers_1_to_23) =
     [\<lparr>cat_name = ''Components 1-10'', cat_components = [0, 1, 2, 3, 4, 5, 6, 7, 8, 9]\<rparr>,
      \<lparr>cat_name = ''Components 11-20'', cat_components = [10, 11, 12, 13, 14, 15, 16, 17, 18, 19]\<rparr>,
      \<lparr>cat_name = ''Components 21-23'', cat_components = [20, 21, 22]\<rparr>]"
  by code_simp

lemma organize_loop_numbers:
  "map number cs = map number cs' \<Longrightarrow> organize_loop n i cs d = organize_loop n i cs' d"
proof (induction cs arbitrary: cs' i d)
  case Nil
  then show ?case by simp
next
  case (Cons c cs)
  then obtain c' cs'' where c': "cs' = c' # cs''" by (cases cs') auto
  with Cons.prems have eq: "number c = number c'" "map number cs = map number cs''" by auto
  show ?case using Cons.IH[OF eq(2)] eq(1) c' by (simp split: option.splits)
qed

lemma tens_categories_of_loop:
  "tens_categories_of cs = map snd (organize_loop (length cs) 0 cs [])"
  by (simp add: organize_loop_tens tens_categories_of_def comp_def)

lemma tens_categories_of_numbers:
  assumes "map number cs = map number cs'"
  shows "tens_categories_of cs = tens_categories_of cs'"
proof -
  have "length cs = length cs'" using assms map_eq_imp_length_eq by blast
  then show ?thesis
    using organize_loop_numbers[OF assms, of "length cs" 0 "[]"]
    by (simp add: tens_categories_of_loop)
qed

lemma numbers_1_to_23_numbers:
  "categories numbers_1_to_23 = []"
  "map number (components numbers_1_to_23) = map str_nat [1..<24]"
  by (simp_all add: numbers_1_to_23_def numbered_def Component_def comp_def)

lemma no_integer_no_category:
  assumes "py_int (number (cs ! i)) = None" "i < length cs" "cat \<in> set (tens_categories_of cs)"
  shows "i \<notin> set (cat_components cat)"
proof -
  obtain k where "cat = tens_category (length cs) cs k"
    using assms(3) by (auto simp: tens_categories_of_def)
  then show ?thesis using assms(1) by (simp add: tens_category_def in_tens_def)
qed

text \<open>
  Claim C8. With no category yet, \<^verbatim>\<open>organize_by_categories\<close> returns, and stores, one
  category for each bucket of ten that has a member, in the order of their first members:
  the category of the bucket \<open>k\<close> is named \<^verbatim>\<open>Components\<close> \<open>10 k + 1\<close>\<^verbatim>\<open>-\<close>\<open>min (10 k + 10) n\<close>,
  \<open>n\<close> the number of components, and its members are the components whose number reads
  as an integer from \<open>10 k + 1\<close> to \<open>10 k + 10\<close>, in the order of the list. Twenty-three
  components numbered 1 to 23 are put into exactly three categories, named for the
  ranges 1-10, 11-20 and 21-23. A component whose number does not read as an integer
  is in no category.
\<close>

theorem tens_categories:
  "(categories st = [] \<longrightarrow>
      organize_by_categories st =
        (tens_categories_of (components st),
         st\<lparr>categories := tens_categories_of (components st)\<rparr>))
   \<and> (categories st = [] \<and> map number (components st) = map str_nat [1..<24] \<longrightarrow>
        fst (organize_by_categories st) =
          [\<lparr>cat_name = ''Components 1-10'', cat_components = [0, 1, 2, 3, 4, 5, 6, 7, 8, 9]\<rparr>,
           \<lparr>cat_name = ''Components 11-20'',
              cat_components = [10, 11, 12, 13, 14, 15, 16, 17, 18, 19]\<rparr>,
           \<lparr>cat_name = ''Components 21-23'', cat_components = [20, 21, 22]\<rparr>])
   \<and> (categories st = [] \<and> i < length (components st)
        \<and> py_int (number (components st ! i)) = None \<longrightarrow>
        (\<forall>cat \<in> set (fst (organize_by_categories st)). i \<notin> set (cat_components cat)))"
proof (intro conjI impI)
  assume "categories st = []"
  then show "organize_by_categories st =
        (tens_categories_of (components st),
         st\<lparr>categories := tens_categories_of (components st)\<rparr>)"
    by (rule organize_by_categories_tens)
next
  assume h: "categories st = [] \<and> map number (components st) = map str_nat [1..<24]"
  then have "map number (components st) = map number (components numbers_1_to_23)"
    by (simp only: numbers_1_to_23_numbers)
  then have "tens_categories_of (components st) = tens_categories_of (components numbers_1_to_23)"
    by (rule tens_categories_of_numbers)
  then show "fst (organize_by_categories st) =
          [\<lparr>cat_name = ''Components 1-10'', cat_components = [0, 1, 2, 3, 4, 5, 6, 7, 8, 9]\<rparr>,
           \<lparr>cat_name = ''Components 11-20'',
              cat_components = [10, 11, 12, 13, 14, 15, 16, 17, 18, 19]\<rparr>,
           \<lparr>cat_name = ''Components 21-23'', cat_components = [20, 21, 22]\<rparr>]"
    using h organize_by_categories_tens[of st] by (simp add: tens_23)
next
  assume h: "categories st = [] \<and> i < length (components st)
        \<and> py_int (number (components st ! i)) = None"
  then have "fst (organize_by_categories st) = tens_categories_of (components st)"
    using organize_by_categories_tens[of st] by simp
  then show "\<forall>cat \<in> set (fst (organize_by_categories st)). i \<notin> set (cat_components cat)"
    using h no_integer_no_category[of "components st" i] by simp
qed

text \<open>
  The components numbered 1 to 23, and the four components numbered 3, a, 15 and iv:
  the second and the fourth are in no category.
\<close>

theorem tens_categories_witness:
  "map cat_name (fst (organize_by_categories numbers_1_to_23)) =
     [''Components 1-10'', ''Components 11-20'', ''Components 21-23'']
   \<and> fst (organize_by_categories mixed_example) =
       [\<lparr>cat_name = ''Components 1-4'', cat_components = [0]\<rparr>,
        \<lparr>cat_name = ''Components 11-4'', cat_components = [2]\<rparr>]
   \<and> 1 \<notin> set (concat (map cat_components (fst (organize_by_categories mixed_example))))"
proof -
  have b: "categories mixed_example = []" "1 < length (components mixed_example)"
    "py_int (number (components mixed_example ! 1)) = None"
    by code_simp+
  have v: "tens_categories_of (components mixed_example) =
       [\<lparr>cat_name = ''Components 1-4'', cat_components = [0]\<rparr>,
        \<lparr>cat_name = ''Components 11-4'', cat_components = [2]\<rparr>]"
    by code_simp
  have t1: "fst (organize_by_categories numbers_1_to_23) =
        [\<lparr>cat_name = ''Components 1-10'', cat_components = [0, 1, 2, 3, 4, 5, 6, 7, 8, 9]\<rparr>,
         \<lparr>cat_name = ''Components 11-20'',
            cat_components = [10, 11, 12, 13, 14, 15, 16, 17, 18, 19]\<rparr>,
         \<lparr>cat_name = ''Components 21-23'', cat_components = [20, 21, 22]\<rparr>]"
    using tens_categories[of numbers_1_to_23] numbers_1_to_23_numbers by blast
  have t2: "organize_by_categories mixed_example =
        (tens_categories_of (components mixed_example),
         mixed_example\<lparr>categories := tens_categories_of (components mixed_example)\<rparr>)"
    and t3: "\<forall>cat \<in> set (fst (organize_by_categories mixed_example)).
        1 \<notin> set (cat_components cat)"
    using tens_categories[of mixed_example 1] b by blast+
  show ?thesis using t3 by (simp add: t1 t2 v)
qed

section \<open>Every call resets the extractor\<close>

lemma toc_first_pass_same:
  "objects a = objects b \<Longrightarrow> toc_entries a = toc_entries b \<Longrightarrow>
   fst (toc_first_pass ls a) = fst (toc_first_pass ls b)
   \<and> objects (snd (toc_first_pass ls a)) = objects (snd (toc_first_pass ls b))
   \<and> toc_entries (snd (toc_first_pass ls a)) = toc_entries (snd (toc_first_pass ls b))"
proof (induction ls arbitrary: a b)
  case Nil
  then show ?case by simp
next
  case (Cons l ls)
  show ?case
  proof (cases "parse_toc_line (rstrip l)")
    case (Inl e)
    then show ?thesis using Cons.IH[OF Cons.prems] Cons.prems by simp
  next
    case (Inr r)
    show ?thesis
    proof (cases r)
      case None
      then show ?thesis using Inr Cons.IH[OF Cons.prems] Cons.prems by simp
    next
      case (Some entry)
      let ?a = "a\<lparr>objects := objects a @ [entry],
                   toc_entries := toc_entries a @ [length (objects a)]\<rparr>"
      let ?b = "b\<lparr>objects := objects b @ [entry],
                   toc_entries := toc_entries b @ [length (objects b)]\<rparr>"
      have "objects ?a = objects ?b" "toc_entries ?a = toc_entries ?b"
        using Cons.prems by simp_all
      from Cons.IH[OF this] show ?thesis using Some Inr Cons.IH[OF Cons.prems] Cons.prems by simp
    qed
  qed
qed

lemma determine_hierarchy_same:
  "objects a = objects b \<Longrightarrow> toc_entries a = toc_entries b \<Longrightarrow>
   fst (determine_hierarchy a) = fst (determine_hierarchy b)
   \<and> objects (snd (determine_hierarchy a)) = objects (snd (determine_hierarchy b))
   \<and> toc_entries (snd (determine_hierarchy a)) = toc_entries (snd (determine_hierarchy b))"
  by (simp add: determine_hierarchy_def Let_def split: sum.splits)

lemma extract_toc_independent:
  "fst (extract_toc st doc) = fst (extract_toc st' doc)
   \<and> objects (snd (extract_toc st doc)) = objects (snd (extract_toc st' doc))
   \<and> toc_entries (snd (extract_toc st doc)) = toc_entries (snd (extract_toc st' doc))"
proof -
  let ?a = "toc_first_pass (split_on NL doc) (st\<lparr>objects := [], toc_entries := []\<rparr>)"
  let ?b = "toc_first_pass (split_on NL doc) (st'\<lparr>objects := [], toc_entries := []\<rparr>)"
  have p: "fst ?a = fst ?b \<and> objects (snd ?a) = objects (snd ?b)
      \<and> toc_entries (snd ?a) = toc_entries (snd ?b)"
    by (rule toc_first_pass_same) simp_all
  obtain e s where a: "?a = (e, s)" by (cases ?a)
  obtain e' s' where b: "?b = (e', s')" by (cases ?b)
  have q: "e = e'" "objects s = objects s'" "toc_entries s = toc_entries s'"
    using p a b by simp_all
  have d: "fst (determine_hierarchy s) = fst (determine_hierarchy s')
      \<and> objects (snd (determine_hierarchy s)) = objects (snd (determine_hierarchy s'))
      \<and> toc_entries (snd (determine_hierarchy s)) = toc_entries (snd (determine_hierarchy s'))"
    using q by (intro determine_hierarchy_same)
  obtain r u where dh: "determine_hierarchy s = (r, u)" by (cases "determine_hierarchy s")
  obtain r' u' where dh': "determine_hierarchy s' = (r', u')" by (cases "determine_hierarchy s'")
  show ?thesis
    using a b q d dh dh'
    by (cases e'; cases r'; simp add: extract_toc_def)
qed

lemma index_pass_same:
  "index_entries a = index_entries b \<Longrightarrow>
   fst (index_pass cap ls a cur) = fst (index_pass cap ls b cur)
   \<and> index_entries (snd (index_pass cap ls a cur)) = index_entries (snd (index_pass cap ls b cur))"
proof (induction ls arbitrary: a b cur)
  case Nil
  then show ?case by simp
next
  case (Cons l ls)
  show ?case
  proof (cases "index_line cap (rstrip l) (index_entries b, cur)")
    case (Inl e)
    then show ?thesis using Cons.IH[OF Cons.prems] Cons.prems by simp
  next
    case (Inr r)
    obtain d cur' where r: "r = (d, cur')" by (cases r)
    have "index_entries (a\<lparr>index_entries := d\<rparr>) = index_entries (b\<lparr>index_entries := d\<rparr>)"
      by simp
    from Cons.IH[OF this] show ?thesis using Inr r Cons.IH[OF Cons.prems] Cons.prems by simp
  qed
qed

lemma extract_index_independent:
  "fst (extract_index cap st doc) = fst (extract_index cap st' doc)
   \<and> index_entries (snd (extract_index cap st doc)) = index_entries (snd (extract_index cap st' doc))"
proof -
  let ?a = "index_pass cap (split_on NL doc) (st\<lparr>index_entries := []\<rparr>) None"
  let ?b = "index_pass cap (split_on NL doc) (st'\<lparr>index_entries := []\<rparr>) None"
  have p: "fst ?a = fst ?b \<and> index_entries (snd ?a) = index_entries (snd ?b)"
    by (rule index_pass_same) simp
  obtain e s where a: "?a = (e, s)" by (cases ?a)
  obtain e' s' where b: "?b = (e', s')" by (cases ?b)
  show ?thesis using p a b by (cases e') (simp_all add: extract_index_def)
qed

lemma extract_components_independent:
  "extract_components_from_text st doc = extract_components_from_text st' doc"
proof -
  have eq: "st\<lparr>components := [], categories := []\<rparr> = st'\<lparr>components := [], categories := []\<rparr>"
    by simp
  show ?thesis unfolding extract_components_from_text_def eq by (rule refl)
qed

lemma toc_mode:
  "extract_toc_from_text cap a doc False =
     (case fst (extract_toc a doc) of Inl e \<Rightarrow> Inl e | Inr rs \<Rightarrow> Inr (Toc rs),
      snd (extract_toc a doc))"
  by (simp add: extract_toc_from_text_def split: prod.splits sum.splits)

lemma index_mode:
  "extract_toc_from_text cap a doc True =
     (case fst (extract_index cap a doc) of Inl e \<Rightarrow> Inl e | Inr es \<Rightarrow> Inr (Index es),
      snd (extract_index cap a doc))"
  by (simp add: extract_toc_from_text_def split: prod.splits sum.splits)

lemma extract_toc_from_text_independent:
  "fst (extract_toc_from_text cap a doc is_index) = fst (extract_toc_from_text cap b doc is_index)
   \<and> objects (snd (extract_toc_from_text cap a doc False)) =
       objects (snd (extract_toc_from_text cap b doc False))
   \<and> toc_entries (snd (extract_toc_from_text cap a doc False)) =
       toc_entries (snd (extract_toc_from_text cap b doc False))
   \<and> index_entries (snd (extract_toc_from_text cap a doc True)) =
       index_entries (snd (extract_toc_from_text cap b doc True))"
proof -
  have t: "fst (extract_toc_from_text cap a doc False) = fst (extract_toc_from_text cap b doc False)"
    using extract_toc_independent[of a doc b] by (simp add: toc_mode)
  have i: "fst (extract_toc_from_text cap a doc True) = fst (extract_toc_from_text cap b doc True)"
    using extract_index_independent[of cap a doc b] by (simp add: index_mode)
  have f: "fst (extract_toc_from_text cap a doc is_index) = fst (extract_toc_from_text cap b doc is_index)"
    using t i by (cases is_index) simp_all
  have o: "objects (snd (extract_toc_from_text cap a doc False)) =
       objects (snd (extract_toc_from_text cap b doc False))"
    using extract_toc_independent[of a doc b] by (simp add: toc_mode)
  have e: "toc_entries (snd (extract_toc_from_text cap a doc False)) =
       toc_entries (snd (extract_toc_from_text cap b doc False))"
    using extract_toc_independent[of a doc b] by (simp add: toc_mode)
  have x: "index_entries (snd (extract_toc_from_text cap a doc True)) =
       index_entries (snd (extract_toc_from_text cap b doc True))"
    using extract_index_independent[of cap a doc b] by (simp add: index_mode)
  show ?thesis using f o e x by blast
qed

lemma two_lines_raise:
  "fst (extract_toc TOCExtractor two_line_toc) = Inl ValueError"
  "fst (extract_toc (snd (extract_toc TOCExtractor two_line_toc)) two_line_toc) = Inl ValueError"
  by code_simp+

text \<open>
  Claim C4 fails for the table of contents, by the defect of claim C3: on the two lines
  \<^verbatim>\<open>Introduction 10\<close> and \<^verbatim>\<open>Methods 12\<close> the first call raises ValueError in the sort of
  \<^verbatim>\<open>_determine_hierarchy\<close>, and so does the second call on the extractor the first one
  left: neither call yields a structured output.
\<close>

theorem toc_twice_raises:
  "fst (extract_toc_from_text cap TOCExtractor two_line_toc False) = Inl ValueError
   \<and> fst (extract_toc_from_text cap
            (snd (extract_toc_from_text cap TOCExtractor two_line_toc False))
            two_line_toc False) = Inl ValueError"
  by (simp add: toc_mode two_lines_raise)

end
